theory Spec2Isabelle
  imports Main "HOL-Library.Char_ord" "HOL-Library.List_Lexorder"
begin

section \<open>Data model of \<^verbatim>\<open>include/Parameter.h\<close>\<close>

text \<open>
  \<^verbatim>\<open>enum class ParameterGroup\<close>, in declaration order. The outer \<^verbatim>\<open>std::map\<close> of
  both dictionaries is keyed by it, so its order (the order of the enumerators) is
  the order in which groups are visited.
\<close>

datatype ParameterGroup =
  PARAMETER | MAIN | ORBEXTRACTOR | INITIALIZATION | TRACKING
  | RELOCALIZATION | LOCAL_MAPPING | LOOP_CLOSING | UNDEFINED

fun group_index :: "ParameterGroup \<Rightarrow> nat" where
  "group_index PARAMETER = 0"
| "group_index MAIN = 1"
| "group_index ORBEXTRACTOR = 2"
| "group_index INITIALIZATION = 3"
| "group_index TRACKING = 4"
| "group_index RELOCALIZATION = 5"
| "group_index LOCAL_MAPPING = 6"
| "group_index LOOP_CLOSING = 7"
| "group_index UNDEFINED = 8"

instantiation ParameterGroup :: linorder
begin

definition less_eq_ParameterGroup :: "ParameterGroup \<Rightarrow> ParameterGroup \<Rightarrow> bool" where
  "less_eq_ParameterGroup a b = (group_index a \<le> group_index b)"

definition less_ParameterGroup :: "ParameterGroup \<Rightarrow> ParameterGroup \<Rightarrow> bool" where
  "less_ParameterGroup a b = (group_index a < group_index b)"

instance
proof
  fix x y z :: ParameterGroup
  show "(x < y) = (x \<le> y \<and> \<not> y \<le> x)"
    by (auto simp: less_eq_ParameterGroup_def less_ParameterGroup_def)
  show "x \<le> x"
    by (simp add: less_eq_ParameterGroup_def)
  show "x \<le> y \<Longrightarrow> y \<le> z \<Longrightarrow> x \<le> z"
    by (simp add: less_eq_ParameterGroup_def)
  show "x \<le> y \<Longrightarrow> y \<le> x \<Longrightarrow> x = y"
    by (cases x; cases y; simp add: less_eq_ParameterGroup_def)
  show "x \<le> y \<or> y \<le> x"
    by (auto simp: less_eq_ParameterGroup_def)
qed

end

text \<open>\<^verbatim>\<open>ParameterBase::ParameterCategory\<close>. The enumerator \<^verbatim>\<open>UNDEFINED\<close> of the
  category is written \<open>CATEGORY_UNDEFINED\<close>, the group already owns the name.\<close>

datatype ParameterCategory = MINMAX | BOOL | TEXTINPUT | CATEGORY_UNDEFINED

text \<open>
  What a run can be observed to do besides changing values, in the order it does it:
  the log lines (\<^verbatim>\<open>LOG(WARNING)\<close>, \<^verbatim>\<open>DLOG(WARNING)\<close>, \<^verbatim>\<open>DLOG(INFO)\<close>), the calls of a
  parameter's \<^verbatim>\<open>mOnUpdateCallback\<close> and the creation of a \<^verbatim>\<open>pangolin::Var\<close> under a
  label. A callback is a \<^verbatim>\<open>std::function<void(void)>\<close>; it is identified by a number,
  and calling it is recorded, nothing more: what the callback's body does belongs
  to the caller.
\<close>

type_synonym callback = nat

datatype event =
  LOG_WARNING string
  | DLOG_WARNING string
  | DLOG_INFO string
  | OnUpdate callback
  | NewVar string

text \<open>
  The exceptions the code can throw, and the two ways in which it can leave defined
  behaviour: \<^verbatim>\<open>boost::lexical_cast\<close> throws \<^verbatim>\<open>bad_lexical_cast\<close>, \<^verbatim>\<open>boost::get\<close> on a
  variant that holds another alternative throws \<^verbatim>\<open>bad_get\<close>; calling a member
  through \<^verbatim>\<open>nullptr\<close> or through a pointer to a destroyed object is undefined
  behaviour, which the model makes a result of its own.
\<close>

datatype error = bad_lexical_cast | bad_get | null_dereference | use_after_free

text \<open>
  The operations of the template argument \<^verbatim>\<open>T\<close> that the templates use:
  \<^verbatim>\<open>operator!=\<close>, \<^verbatim>\<open>std::to_string\<close>, \<^verbatim>\<open>boost::lexical_cast<T>\<close> (\<open>None\<close> when it throws),
  and the conversions \<^verbatim>\<open>T(0)\<close> and \<^verbatim>\<open>T(toggle)\<close> of the member initialisers. They
  belong to the language and its libraries, not to this header, so every function
  that is a template in the source takes them as an argument.
\<close>

record 'a T_ops =
  ne :: "'a \<Rightarrow> 'a \<Rightarrow> bool"
  to_string :: "'a \<Rightarrow> string"
  lexical_cast :: "string \<Rightarrow> 'a option"
  T_of_zero :: "'a"
  T_of_bool :: "bool \<Rightarrow> 'a"

text \<open>\<^verbatim>\<open>template <typename T> class Parameter\<close>: the data members, under their names.\<close>

record 'a Parameter =
  mCategory :: ParameterCategory
  mMinValue :: "'a"
  mMaxValue :: "'a"
  mValue :: "'a"
  mName :: string
  mGroup :: ParameterGroup
  mChangedThroughPangolin :: bool
  mChangedInCode :: bool
  mOnUpdateCallback :: callback

text \<open>The member initialiser lists of the three registering constructors. The
  constructor body, which is the same in all three, is \<open>construct\<close> below.\<close>

definition Parameter_BOOL ::
  "'a T_ops \<Rightarrow> string \<Rightarrow> bool \<Rightarrow> bool \<Rightarrow> ParameterGroup \<Rightarrow> callback \<Rightarrow> 'a Parameter" where
  "Parameter_BOOL ops name val toggle grp onUpdateCallback =
     \<lparr> mCategory = BOOL, mMinValue = T_of_zero ops, mMaxValue = T_of_bool ops toggle,
       mValue = T_of_bool ops val, mName = name, mGroup = grp,
       mChangedThroughPangolin = False, mChangedInCode = False,
       mOnUpdateCallback = onUpdateCallback \<rparr>"

definition Parameter_MINMAX ::
  "string \<Rightarrow> 'a \<Rightarrow> 'a \<Rightarrow> 'a \<Rightarrow> ParameterGroup \<Rightarrow> callback \<Rightarrow> 'a Parameter" where
  "Parameter_MINMAX name val minValue maxValue grp onUpdateCallback =
     \<lparr> mCategory = MINMAX, mMinValue = minValue, mMaxValue = maxValue,
       mValue = val, mName = name, mGroup = grp,
       mChangedThroughPangolin = False, mChangedInCode = False,
       mOnUpdateCallback = onUpdateCallback \<rparr>"

definition Parameter_TEXTINPUT ::
  "'a T_ops \<Rightarrow> string \<Rightarrow> 'a \<Rightarrow> ParameterGroup \<Rightarrow> callback \<Rightarrow> 'a Parameter" where
  "Parameter_TEXTINPUT ops name val grp onUpdateCallback =
     \<lparr> mCategory = TEXTINPUT, mMinValue = T_of_zero ops, mMaxValue = T_of_zero ops,
       mValue = val, mName = name, mGroup = grp,
       mChangedThroughPangolin = False, mChangedInCode = False,
       mOnUpdateCallback = onUpdateCallback \<rparr>"

subsection \<open>Member functions of \<^verbatim>\<open>Parameter<T>\<close>\<close>

text \<open>Each member function returns the object as it leaves it, and the events it
  emits where it can emit any.\<close>

definition getValue :: "'a Parameter \<Rightarrow> 'a" where
  "getValue p = mValue p"

definition setValue :: "'a \<Rightarrow> 'a Parameter \<Rightarrow> 'a Parameter \<times> event list" where
  "setValue v p = (p\<lparr> mValue := v, mChangedInCode := True \<rparr>, [])"

definition checkAndResetIfChanged :: "'a Parameter \<Rightarrow> bool \<times> 'a Parameter" where
  "checkAndResetIfChanged p =
     (if mChangedThroughPangolin p
      then (True, p\<lparr> mChangedThroughPangolin := False \<rparr>)
      else (False, p))"

definition setValueInternal :: "'a \<Rightarrow> 'a Parameter \<Rightarrow> 'a Parameter" where
  "setValueInternal v p = p\<lparr> mValue := v \<rparr>"

definition onUpdate :: "'a Parameter \<Rightarrow> event list" where
  "onUpdate p = [OnUpdate (mOnUpdateCallback p)]"

subsection \<open>\<^verbatim>\<open>ParameterManager::updateValue<T>\<close>\<close>

text \<open>
  The control of a binding as \<^verbatim>\<open>updateValue<T>\<close> can read it: a \<^verbatim>\<open>pangolin::Var<T>\<close>
  or a \<^verbatim>\<open>pangolin::Var<std::string>\<close>, each a cell that \<^verbatim>\<open>Get()\<close> reads and
  \<^verbatim>\<open>operator=\<close> overwrites.
\<close>

datatype 'a pango_var = Var_T 'a | Var_string string

text \<open>The \<^verbatim>\<open>DLOG(INFO)\<close> line of \<^verbatim>\<open>updateValue\<close>; the value the source streams after
  it is left out of the message.\<close>

definition value_message :: "'a Parameter \<Rightarrow> event" where
  "value_message p = DLOG_INFO (''Parameter value of '' @ mName p @ '' is: '')"

definition updateValue ::
  "'a T_ops \<Rightarrow> 'a Parameter \<Rightarrow> 'a pango_var
     \<Rightarrow> error + ('a Parameter \<times> 'a pango_var \<times> event list)" where
  "updateValue ops param pango_var_variant =
     (let param_value = mValue param in
      if mCategory param = TEXTINPUT then
        (case pango_var_variant of
           Var_T _ \<Rightarrow> Inl bad_get
         | Var_string text \<Rightarrow>
             (case lexical_cast ops text of
                None \<Rightarrow> Inl bad_lexical_cast
              | Some pango_var_value \<Rightarrow>
                  if mChangedInCode param then
                    Inr (param\<lparr> mChangedInCode := False \<rparr>,
                         Var_string (to_string ops param_value),
                         value_message param # onUpdate param)
                  else if ne ops pango_var_value param_value then
                    Inr (setValueInternal pango_var_value param
                           \<lparr> mChangedThroughPangolin := True \<rparr>,
                         Var_string text,
                         value_message param # onUpdate param)
                  else Inr (param, Var_string text, [])))
      else
        (case pango_var_variant of
           Var_string _ \<Rightarrow> Inl bad_get
         | Var_T shown \<Rightarrow>
             if ne ops shown param_value then
               (if mChangedInCode param then
                  Inr (param\<lparr> mChangedInCode := False \<rparr>,
                       Var_T param_value,
                       value_message param # onUpdate param)
                else
                  Inr (setValueInternal shown param
                         \<lparr> mChangedThroughPangolin := True \<rparr>,
                       Var_T shown,
                       value_message param # onUpdate param))
             else Inr (param, Var_T shown, [])))"

section \<open>The two dictionaries\<close>

subsection \<open>\<^verbatim>\<open>std::map\<close>\<close>

text \<open>
  A \<^verbatim>\<open>std::map\<close> is the list of its entries in iteration order, which is ascending
  key order: \<^verbatim>\<open>operator<\<close> of \<^verbatim>\<open>std::string\<close> is the lexicographic order on bytes,
  and the order of \<^verbatim>\<open>ParameterGroup\<close> is the order of its enumerators.
  \<open>map_find\<close> is \<^verbatim>\<open>find\<close> (\<open>None\<close> for \<^verbatim>\<open>end()\<close>), \<open>map_assign\<close> is \<^verbatim>\<open>m[k] = v\<close>, and
  \<open>map_at\<close> is \<^verbatim>\<open>m[k]\<close> read, which inserts a value-initialised entry when the key
  is missing.
\<close>

definition map_find :: "'k \<Rightarrow> ('k \<times> 'v) list \<Rightarrow> 'v option" where
  "map_find k m = map_of m k"

fun map_assign :: "'k::linorder \<Rightarrow> 'v \<Rightarrow> ('k \<times> 'v) list \<Rightarrow> ('k \<times> 'v) list" where
  "map_assign k v [] = [(k, v)]"
| "map_assign k v ((k', v') # m) =
     (if k < k' then (k, v) # (k', v') # m
      else if k = k' then (k, v) # m
      else (k', v') # map_assign k v m)"

definition map_at :: "'k::linorder \<Rightarrow> 'v \<Rightarrow> ('k \<times> 'v) list \<Rightarrow> 'v \<times> ('k \<times> 'v) list" where
  "map_at k dflt m =
     (case map_find k m of
        Some v \<Rightarrow> (v, m)
      | None \<Rightarrow> (dflt, map_assign k dflt m))"

subsection \<open>Objects, pointers and the state of the program\<close>

text \<open>
  \<^verbatim>\<open>ParameterVariant\<close> and the four instances of \<^verbatim>\<open>Parameter<T>\<close> it allows. \<^verbatim>\<open>int\<close> is
  \<open>int\<close>: the header does no arithmetic on a value. \<^verbatim>\<open>float\<close> and \<^verbatim>\<open>double\<close> are the
  type arguments \<open>'f\<close> and \<open>'d\<close>: their values and operations are IEEE's, and are
  given with the library record below.
\<close>

datatype ('f, 'd) ParameterVariant =
  Variant_bool bool | Variant_int int | Variant_float 'f | Variant_double 'd

fun which :: "('f, 'd) ParameterVariant \<Rightarrow> nat" where
  "which (Variant_bool _) = 0"
| "which (Variant_int _) = 1"
| "which (Variant_float _) = 2"
| "which (Variant_double _) = 3"

datatype ('f, 'd) ParameterBase =
  Parameter_bool "bool Parameter"
  | Parameter_int "int Parameter"
  | Parameter_float "'f Parameter"
  | Parameter_double "'d Parameter"

text \<open>The virtual member functions of \<^verbatim>\<open>ParameterBase\<close>, as \<^verbatim>\<open>Parameter<T>\<close> overrides them.\<close>

fun getVariant :: "('f, 'd) ParameterBase \<Rightarrow> ('f, 'd) ParameterVariant" where
  "getVariant (Parameter_bool p) = Variant_bool (mValue p)"
| "getVariant (Parameter_int p) = Variant_int (mValue p)"
| "getVariant (Parameter_float p) = Variant_float (mValue p)"
| "getVariant (Parameter_double p) = Variant_double (mValue p)"

fun getCategory :: "('f, 'd) ParameterBase \<Rightarrow> ParameterCategory" where
  "getCategory (Parameter_bool p) = mCategory p"
| "getCategory (Parameter_int p) = mCategory p"
| "getCategory (Parameter_float p) = mCategory p"
| "getCategory (Parameter_double p) = mCategory p"

fun getName :: "('f, 'd) ParameterBase \<Rightarrow> string" where
  "getName (Parameter_bool p) = mName p"
| "getName (Parameter_int p) = mName p"
| "getName (Parameter_float p) = mName p"
| "getName (Parameter_double p) = mName p"

fun getGroup :: "('f, 'd) ParameterBase \<Rightarrow> ParameterGroup" where
  "getGroup (Parameter_bool p) = mGroup p"
| "getGroup (Parameter_int p) = mGroup p"
| "getGroup (Parameter_float p) = mGroup p"
| "getGroup (Parameter_double p) = mGroup p"

text \<open>\<^verbatim>\<open>ParameterManager::PangolinVariants\<close>: the control, a \<^verbatim>\<open>pangolin::Var\<close> of one of
  five types, each holding the value it shows.\<close>

datatype ('f, 'd) PangolinVariants =
  Var_bool bool | Var_int int | Var_float 'f | Var_double 'd | Var_std_string string

text \<open>The operations of the four value types.\<close>

record ('f, 'd) library =
  bool_ops :: "bool T_ops"
  int_ops :: "int T_ops"
  float_ops :: "'f T_ops"
  double_ops :: "'d T_ops"

text \<open>
  A \<^verbatim>\<open>ParameterBase*\<close> is \<^verbatim>\<open>nullptr\<close> or the address of an object. The objects live in
  \<open>heap\<close>, where the address is the index and a destroyed object leaves \<open>None\<close>; an
  address is never given out twice. \<open>parametersDict\<close> and \<open>pangolinParams\<close> are the
  two static members, \<open>trace\<close> the events so far.
\<close>

datatype pointer = nullptr | Addr nat

record ('f, 'd) world =
  heap :: "('f, 'd) ParameterBase option list"
  parametersDict :: "(ParameterGroup \<times> (string \<times> pointer) list) list"
  pangolinParams ::
    "(ParameterGroup \<times> (string \<times> pointer \<times> ('f, 'd) PangolinVariants) list) list"
  trace :: "event list"

definition initial_world :: "('f, 'd) world" where
  "initial_world = \<lparr> heap = [], parametersDict = [], pangolinParams = [], trace = [] \<rparr>"

fun deref :: "'o option list \<Rightarrow> pointer \<Rightarrow> error + 'o" where
  "deref h nullptr = Inl null_dereference"
| "deref h (Addr a) =
     (if a < length h
      then (case h ! a of None \<Rightarrow> Inl use_after_free | Some obj \<Rightarrow> Inr obj)
      else Inl use_after_free)"

fun store :: "'o option list \<Rightarrow> pointer \<Rightarrow> 'o \<Rightarrow> 'o option list" where
  "store h nullptr obj = h"
| "store h (Addr a) obj = h[a := Some obj]"

subsection \<open>Construction, destruction and lookup\<close>

text \<open>
  The body shared by the three constructors, run on an object that one of the
  member initialiser lists above has filled in and that is placed at a new address.
\<close>

definition construct ::
  "('f, 'd) ParameterBase \<Rightarrow> ('f, 'd) world \<Rightarrow> nat \<times> ('f, 'd) world" where
  "construct obj w =
     (let this = length (heap w);
          (inner, dict) = map_at (getGroup obj) [] (parametersDict w);
          found_it = map_find (getName obj) inner;
          warning = (if found_it \<noteq> None
                     then [LOG_WARNING (''Duplicate parameter: '' @ getName obj)]
                     else [])
      in (this,
          w\<lparr> heap := heap w @ [Some obj],
             parametersDict :=
               map_assign (getGroup obj) (map_assign (getName obj) (Addr this) inner) dict,
             trace := trace w @ warning \<rparr>))"

text \<open>\<^verbatim>\<open>~Parameter()\<close> of the object at an address. A call that does not return gives
  the exception, or the undefined behaviour, and the state it leaves.\<close>

definition destroy ::
  "nat \<Rightarrow> ('f, 'd) world \<Rightarrow> (error \<times> ('f, 'd) world) + ('f, 'd) world" where
  "destroy a w =
     (case deref (heap w) (Addr a) of
        Inl e \<Rightarrow> Inl (e, w)
      | Inr obj \<Rightarrow>
          (let (inner, dict) = map_at (getGroup obj) [] (parametersDict w)
           in Inr (w\<lparr> heap := (heap w)[a := None],
                      parametersDict :=
                        map_assign (getGroup obj) (map_assign (getName obj) nullptr inner) dict,
                      trace := trace w
                        @ [LOG_WARNING (''Parameter being deleted: '' @ getName obj)] \<rparr>)))"

text \<open>\<^verbatim>\<open>ParameterManager::getParameter<T>\<close>; the \<^verbatim>\<open>static_cast\<close> does not look at the
  pointer, so \<^verbatim>\<open>T\<close> plays no part. The address of \<^verbatim>\<open>group\<close> that the second message
  ends with is left out.\<close>

definition getParameter ::
  "ParameterGroup \<Rightarrow> string \<Rightarrow> ('f, 'd) world \<Rightarrow> pointer \<times> ('f, 'd) world" where
  "getParameter grp name w =
     (case map_find grp (parametersDict w) of
        Some inner \<Rightarrow>
          (case map_find name inner of
             Some param \<Rightarrow> (param, w)
           | None \<Rightarrow>
               (nullptr,
                w\<lparr> trace := trace w
                  @ [DLOG_WARNING (''Looking for a parameter which doesn't exist: '' @ name)] \<rparr>))
      | None \<Rightarrow>
          (nullptr,
           w\<lparr> trace := trace w
             @ [DLOG_WARNING ''Looking for a group which doesn't have any parameters: ''] \<rparr>))"

section \<open>\<^verbatim>\<open>ParameterManager\<close>\<close>

subsection \<open>\<^verbatim>\<open>createPangolinEntries\<close>\<close>

text \<open>
  \<^verbatim>\<open>pangolinParams[group][name] = std::make_pair(param, new pangolin::Var<...>(label, ...))\<close>.
  The new control is a cell of its own holding the value it was created with; the
  bounds and the toggle flag it is given stay with the control surface.
\<close>

definition bind_entry ::
  "ParameterGroup \<Rightarrow> string \<Rightarrow> pointer \<Rightarrow> ('f, 'd) PangolinVariants \<Rightarrow> string
     \<Rightarrow> ('f, 'd) world \<Rightarrow> ('f, 'd) world" where
  "bind_entry grp name param var label w =
     (let (inner, pairs) = map_at grp [] (pangolinParams w)
      in w\<lparr> pangolinParams := map_assign grp (map_assign name (param, var) inner) pairs,
            trace := trace w @ [NewVar label] \<rparr>)"

definition createPangolinEntry ::
  "'a T_ops \<Rightarrow> ('a \<Rightarrow> ('f, 'd) PangolinVariants) \<Rightarrow> 'a Parameter \<Rightarrow> pointer \<Rightarrow> string
     \<Rightarrow> ('f, 'd) world \<Rightarrow> ('f, 'd) world" where
  "createPangolinEntry ops new_Var p param panel_name w =
     (if mCategory p = BOOL then
        bind_entry (mGroup p) (mName p) param (new_Var (mValue p))
          (panel_name @ ''.'' @ mName p) w
      else if mCategory p = MINMAX then
        bind_entry (mGroup p) (mName p) param (new_Var (mValue p))
          (panel_name @ ''.'' @ mName p) w
      else if mCategory p = TEXTINPUT then
        bind_entry (mGroup p) (mName p) param (Var_std_string (to_string ops (mValue p)))
          (panel_name @ ''.'' @ mName p) w
      else w)"

text \<open>The \<^verbatim>\<open>switch\<close> on \<^verbatim>\<open>param->getVariant().which()\<close>: alternative 0 is the
  \<^verbatim>\<open>Parameter<bool>\<close>, 1 the \<^verbatim>\<open>Parameter<int>\<close>, 2 the \<^verbatim>\<open>Parameter<float>\<close> and 3 the
  \<^verbatim>\<open>Parameter<double>\<close>.\<close>

fun createPangolinEntry_which ::
  "('f, 'd) library \<Rightarrow> ('f, 'd) ParameterBase \<Rightarrow> pointer \<Rightarrow> string
     \<Rightarrow> ('f, 'd) world \<Rightarrow> ('f, 'd) world" where
  "createPangolinEntry_which L (Parameter_bool p) param panel_name w =
     createPangolinEntry (bool_ops L) Var_bool p param panel_name w"
| "createPangolinEntry_which L (Parameter_int p) param panel_name w =
     createPangolinEntry (int_ops L) Var_int p param panel_name w"
| "createPangolinEntry_which L (Parameter_float p) param panel_name w =
     createPangolinEntry (float_ops L) Var_float p param panel_name w"
| "createPangolinEntry_which L (Parameter_double p) param panel_name w =
     createPangolinEntry (double_ops L) Var_double p param panel_name w"

text \<open>The loop over \<^verbatim>\<open>parametersDict[target_group]\<close>, entry by entry. The body calls
  \<^verbatim>\<open>param->getVariant()\<close> first, so it stops at an entry whose pointer cannot be
  followed, with the state as it is then.\<close>

fun createPangolinEntries_loop ::
  "('f, 'd) library \<Rightarrow> string \<Rightarrow> (string \<times> pointer) list \<Rightarrow> ('f, 'd) world
     \<Rightarrow> (error \<times> ('f, 'd) world) + ('f, 'd) world" where
  "createPangolinEntries_loop L panel_name [] w = Inr w"
| "createPangolinEntries_loop L panel_name ((name, param) # rest) w =
     (case deref (heap w) param of
        Inl e \<Rightarrow> Inl (e, w)
      | Inr obj \<Rightarrow>
          createPangolinEntries_loop L panel_name rest
            (createPangolinEntry_which L obj param panel_name w))"

definition createPangolinEntries ::
  "('f, 'd) library \<Rightarrow> string \<Rightarrow> ParameterGroup \<Rightarrow> ('f, 'd) world
     \<Rightarrow> (error \<times> ('f, 'd) world) + ('f, 'd) world" where
  "createPangolinEntries L panel_name target_group w =
     (let (inner, dict) = map_at target_group [] (parametersDict w)
      in createPangolinEntries_loop L panel_name inner (w\<lparr> parametersDict := dict \<rparr>))"

subsection \<open>\<^verbatim>\<open>updateParameters\<close>\<close>

text \<open>
  \<^verbatim>\<open>boost::get<pangolin::Var<T>*>\<close> and \<^verbatim>\<open>boost::get<pangolin::Var<std::string>*>\<close> on a
  control, for each \<^verbatim>\<open>T\<close>: \<open>None\<close> is the alternative that makes both throw.
\<close>

fun as_bool :: "('f, 'd) PangolinVariants \<Rightarrow> bool pango_var option" where
  "as_bool (Var_bool b) = Some (Var_T b)"
| "as_bool (Var_std_string s) = Some (Var_string s)"
| "as_bool _ = None"

fun as_int :: "('f, 'd) PangolinVariants \<Rightarrow> int pango_var option" where
  "as_int (Var_int i) = Some (Var_T i)"
| "as_int (Var_std_string s) = Some (Var_string s)"
| "as_int _ = None"

fun as_float :: "('f, 'd) PangolinVariants \<Rightarrow> 'f pango_var option" where
  "as_float (Var_float x) = Some (Var_T x)"
| "as_float (Var_std_string s) = Some (Var_string s)"
| "as_float _ = None"

fun as_double :: "('f, 'd) PangolinVariants \<Rightarrow> 'd pango_var option" where
  "as_double (Var_double x) = Some (Var_T x)"
| "as_double (Var_std_string s) = Some (Var_string s)"
| "as_double _ = None"

fun of_pango_var :: "('a \<Rightarrow> ('f, 'd) PangolinVariants) \<Rightarrow> 'a pango_var \<Rightarrow> ('f, 'd) PangolinVariants" where
  "of_pango_var new_Var (Var_T x) = new_Var x"
| "of_pango_var new_Var (Var_string s) = Var_std_string s"

text \<open>\<^verbatim>\<open>updateValue<T>(param, pango_var_variant)\<close> on the object and the control of a
  binding, giving both back as the dictionary and the heap hold them.\<close>

definition updateValue_on ::
  "'a T_ops \<Rightarrow> ('a Parameter \<Rightarrow> ('f, 'd) ParameterBase) \<Rightarrow> ('a \<Rightarrow> ('f, 'd) PangolinVariants)
     \<Rightarrow> 'a Parameter \<Rightarrow> 'a pango_var option
     \<Rightarrow> error + (('f, 'd) ParameterBase \<times> ('f, 'd) PangolinVariants \<times> event list)" where
  "updateValue_on ops obj_of new_Var p var =
     (case var of
        None \<Rightarrow> Inl bad_get
      | Some c \<Rightarrow>
          (case updateValue ops p c of
             Inl e \<Rightarrow> Inl e
           | Inr (p', c', evs) \<Rightarrow> Inr (obj_of p', of_pango_var new_Var c', evs)))"

text \<open>The chain of \<^verbatim>\<open>if (type == ...)\<close> on \<^verbatim>\<open>param->getVariant().which()\<close>.\<close>

fun updateValue_which ::
  "('f, 'd) library \<Rightarrow> ('f, 'd) ParameterBase \<Rightarrow> ('f, 'd) PangolinVariants
     \<Rightarrow> error + (('f, 'd) ParameterBase \<times> ('f, 'd) PangolinVariants \<times> event list)" where
  "updateValue_which L (Parameter_bool p) var =
     updateValue_on (bool_ops L) Parameter_bool Var_bool p (as_bool var)"
| "updateValue_which L (Parameter_int p) var =
     updateValue_on (int_ops L) Parameter_int Var_int p (as_int var)"
| "updateValue_which L (Parameter_float p) var =
     updateValue_on (float_ops L) Parameter_float Var_float p (as_float var)"
| "updateValue_which L (Parameter_double p) var =
     updateValue_on (double_ops L) Parameter_double Var_double p (as_double var)"

text \<open>
  The inner loop, over the bindings of one group, and the outer loop, over the
  groups. Each gives back the entries, the heap, the events emitted and the
  exception, if one ended it; an exception leaves everything as it was when it was
  thrown, so the entries after it are untouched.
\<close>

fun updateParameters_inner ::
  "('f, 'd) library \<Rightarrow> (string \<times> pointer \<times> ('f, 'd) PangolinVariants) list
     \<Rightarrow> ('f, 'd) ParameterBase option list
     \<Rightarrow> (string \<times> pointer \<times> ('f, 'd) PangolinVariants) list
        \<times> ('f, 'd) ParameterBase option list \<times> event list \<times> error option" where
  "updateParameters_inner L [] h = ([], h, [], None)"
| "updateParameters_inner L ((name, param, var) # rest) h =
     (case deref h param of
        Inl e \<Rightarrow> ((name, param, var) # rest, h, [], Some e)
      | Inr obj \<Rightarrow>
          (case updateValue_which L obj var of
             Inl e \<Rightarrow> ((name, param, var) # rest, h, [], Some e)
           | Inr (obj', var', evs) \<Rightarrow>
               (case updateParameters_inner L rest (store h param obj') of
                  (rest', h', evs', err) \<Rightarrow>
                    ((name, param, var') # rest', h', evs @ evs', err))))"

fun updateParameters_outer ::
  "('f, 'd) library
     \<Rightarrow> (ParameterGroup \<times> (string \<times> pointer \<times> ('f, 'd) PangolinVariants) list) list
     \<Rightarrow> ('f, 'd) ParameterBase option list
     \<Rightarrow> (ParameterGroup \<times> (string \<times> pointer \<times> ('f, 'd) PangolinVariants) list) list
        \<times> ('f, 'd) ParameterBase option list \<times> event list \<times> error option" where
  "updateParameters_outer L [] h = ([], h, [], None)"
| "updateParameters_outer L ((grp, inner) # groups) h =
     (case updateParameters_inner L inner h of
        (inner', h', evs, Some e) \<Rightarrow> ((grp, inner') # groups, h', evs, Some e)
      | (inner', h', evs, None) \<Rightarrow>
          (case updateParameters_outer L groups h' of
             (groups', h'', evs', err) \<Rightarrow>
               ((grp, inner') # groups', h'', evs @ evs', err)))"

definition updateParameters ::
  "('f, 'd) library \<Rightarrow> ('f, 'd) world \<Rightarrow> (error \<times> ('f, 'd) world) + ('f, 'd) world" where
  "updateParameters L w =
     (case updateParameters_outer L (pangolinParams w) (heap w) of
        (pairs, h, evs, err) \<Rightarrow>
          (let w' = w\<lparr> heap := h, pangolinParams := pairs, trace := trace w @ evs \<rparr>
           in case err of None \<Rightarrow> Inr w' | Some e \<Rightarrow> Inl (e, w')))"

section \<open>The library operations of \<^verbatim>\<open>bool\<close> and \<^verbatim>\<open>int\<close>\<close>

text \<open>
  \<^verbatim>\<open>std::to_string(int)\<close> prints as \<^verbatim>\<open>%d\<close> does: the decimal digits, after a minus sign
  for a negative number. \<^verbatim>\<open>boost::lexical_cast<int>\<close> accepts one optional sign and
  then decimal digits, nothing before, between or after them, and throws when there
  is no digit or the number does not fit the 32 bits of an \<^verbatim>\<open>int\<close>.
\<close>

definition digit_char :: "nat \<Rightarrow> char" where
  "digit_char d = char_of (48 + d)"

fun digits :: "nat \<Rightarrow> string" where
  "digits n = (if n < 10 then [digit_char n] else digits (n div 10) @ [digit_char (n mod 10)])"

declare digits.simps [simp del]

definition to_string_int :: "int \<Rightarrow> string" where
  "to_string_int i = (if i < 0 then CHR ''-'' # digits (nat (- i)) else digits (nat i))"

definition digit_value :: "char \<Rightarrow> nat option" where
  "digit_value c =
     (if (48::nat) \<le> of_char c \<and> of_char c \<le> (57::nat) then Some (of_char c - 48) else None)"

fun parse_digits :: "string \<Rightarrow> nat \<Rightarrow> nat option" where
  "parse_digits [] acc = Some acc"
| "parse_digits (c # cs) acc =
     (case digit_value c of None \<Rightarrow> None | Some d \<Rightarrow> parse_digits cs (acc * 10 + d))"

definition int_in_range :: "int \<Rightarrow> bool" where
  "int_in_range i = (- 2147483648 \<le> i \<and> i \<le> 2147483647)"

definition parse_unsigned :: "bool \<Rightarrow> string \<Rightarrow> int option" where
  "parse_unsigned negative ds =
     (if ds = [] then None
      else (case parse_digits ds 0 of
              None \<Rightarrow> None
            | Some n \<Rightarrow>
                (let i = (if negative then - int n else int n)
                 in if int_in_range i then Some i else None)))"

fun lexical_cast_int :: "string \<Rightarrow> int option" where
  "lexical_cast_int [] = None"
| "lexical_cast_int (c # cs) =
     (if c = CHR ''-'' then parse_unsigned True cs
      else if c = CHR ''+'' then parse_unsigned False cs
      else parse_unsigned False (c # cs))"

definition std_int_ops :: "int T_ops" where
  "std_int_ops =
     \<lparr> ne = (\<lambda>a b. a \<noteq> b), to_string = to_string_int, lexical_cast = lexical_cast_int,
       T_of_zero = 0, T_of_bool = (\<lambda>b. if b then 1 else 0) \<rparr>"

text \<open>
  \<^verbatim>\<open>std::to_string\<close> has no overload for \<^verbatim>\<open>bool\<close>: the argument is promoted to \<^verbatim>\<open>int\<close>.
  \<^verbatim>\<open>boost::lexical_cast<bool>\<close> reads the last character, which has to be \<^verbatim>\<open>0\<close> or \<^verbatim>\<open>1\<close>,
  and accepts before it one sign (a minus only before a zero) and zeros.
\<close>

definition lexical_cast_bool :: "string \<Rightarrow> bool option" where
  "lexical_cast_bool s =
     (if s = [] then None
      else if last s \<noteq> CHR ''1'' \<and> last s \<noteq> CHR ''0'' then None
      else
        (let output = (last s = CHR ''1'');
             front = (case butlast s of
                        [] \<Rightarrow> []
                      | c # cs \<Rightarrow>
                          if c = CHR ''+'' \<or> (c = CHR ''-'' \<and> \<not> output) then cs else c # cs)
         in if list_all (\<lambda>c. c = CHR ''0'') front then Some output else None))"

definition std_bool_ops :: "bool T_ops" where
  "std_bool_ops =
     \<lparr> ne = (\<lambda>a b. a \<noteq> b), to_string = (\<lambda>b. to_string_int (if b then 1 else 0)),
       lexical_cast = lexical_cast_bool, T_of_zero = False, T_of_bool = (\<lambda>b. b) \<rparr>"

text \<open>
  A library for programs whose parameters are all \<^verbatim>\<open>bool\<close> or \<^verbatim>\<open>int\<close>: the floating
  point types are given no more than one value, which prints as nothing and which
  no text converts to.
\<close>

definition no_float_ops :: "unit T_ops" where
  "no_float_ops =
     \<lparr> ne = (\<lambda>a b. False), to_string = (\<lambda>x. []), lexical_cast = (\<lambda>s. None),
       T_of_zero = (), T_of_bool = (\<lambda>b. ()) \<rparr>"

definition integral_library :: "(unit, unit) library" where
  "integral_library =
     \<lparr> bool_ops = std_bool_ops, int_ops = std_int_ops,
       float_ops = no_float_ops, double_ops = no_float_ops \<rparr>"

section \<open>Notions used to state the properties\<close>

text \<open>
  What a control shows, read as a \<^verbatim>\<open>T\<close> (\<open>None\<close> when its text does not convert); the
  control after the value \<open>v\<close> has been written to it; and the controls that
  \<^verbatim>\<open>updateValue\<close> can take for a parameter without \<^verbatim>\<open>boost::get\<close> throwing: a text
  control for \<^verbatim>\<open>TEXTINPUT\<close>, a \<^verbatim>\<open>pangolin::Var<T>\<close> for the other categories.
\<close>

definition external_value :: "'a T_ops \<Rightarrow> 'a pango_var \<Rightarrow> 'a option" where
  "external_value ops c =
     (case c of Var_T x \<Rightarrow> Some x | Var_string text \<Rightarrow> lexical_cast ops text)"

definition show_as :: "'a T_ops \<Rightarrow> 'a pango_var \<Rightarrow> 'a \<Rightarrow> 'a pango_var" where
  "show_as ops c v =
     (case c of Var_T _ \<Rightarrow> Var_T v | Var_string _ \<Rightarrow> Var_string (to_string ops v))"

definition fits :: "'a Parameter \<Rightarrow> 'a pango_var \<Rightarrow> bool" where
  "fits p c =
     (case c of
        Var_T _ \<Rightarrow> mCategory p \<noteq> TEXTINPUT
      | Var_string _ \<Rightarrow> mCategory p = TEXTINPUT)"

text \<open>\<^verbatim>\<open>checkAndResetIfChanged\<close> called for the object it leaves, to call it again.\<close>

definition check_again :: "'a Parameter \<Rightarrow> 'a Parameter" where
  "check_again p = snd (checkAndResetIfChanged p)"

text \<open>
  The text that \<^verbatim>\<open>std::to_string\<close> writes for \<open>v\<close> converts back to a value that
  \<^verbatim>\<open>operator!=\<close> does not tell from \<open>v\<close>; and a control shows a value that
  \<^verbatim>\<open>operator!=\<close> does not tell from \<open>v\<close>.
\<close>

definition converts_back :: "'a T_ops \<Rightarrow> 'a \<Rightarrow> bool" where
  "converts_back ops v =
     (case lexical_cast ops (to_string ops v) of None \<Rightarrow> False | Some y \<Rightarrow> \<not> ne ops y v)"

definition shows_value :: "'a T_ops \<Rightarrow> 'a pango_var \<Rightarrow> 'a \<Rightarrow> bool" where
  "shows_value ops c v =
     (case external_value ops c of None \<Rightarrow> False | Some y \<Rightarrow> \<not> ne ops y v)"

section \<open>Notions used to state the properties of a pass\<close>

text \<open>
  The bindings of all groups in the order in which \<^verbatim>\<open>updateParameters\<close> visits them.
  \<open>unshared\<close>: no two bindings hold the same pointer (\<^verbatim>\<open>createPangolinEntry\<close> files a
  parameter under its own group and name, so each parameter has one binding).
\<close>

definition bindings ::
  "('f, 'd) world \<Rightarrow> (string \<times> pointer \<times> ('f, 'd) PangolinVariants) list" where
  "bindings w = concat (map snd (pangolinParams w))"

definition unshared :: "('f, 'd) world \<Rightarrow> bool" where
  "unshared w = distinct (map (\<lambda>b. fst (snd b)) (bindings w))"

text \<open>
  What the second of two passes needs from the library. For a \<^verbatim>\<open>pangolin::Var<T>\<close>:
  the value shown and the value held each compare equal to themselves (a NaN does
  not). For a text control: what the text converts to compares equal to itself,
  and, when \<^verbatim>\<open>mChangedInCode\<close> is set, the text that \<^verbatim>\<open>std::to_string\<close> writes for the
  value converts back to it. \<open>steady\<close> is \<open>steady_T\<close> for the object and the control
  of a binding, \<open>steady_world\<close> is \<open>steady\<close> for every binding whose pointer can be
  followed.
\<close>

definition steady_T :: "'a T_ops \<Rightarrow> 'a Parameter \<Rightarrow> 'a pango_var \<Rightarrow> bool" where
  "steady_T ops p c =
     (case c of
        Var_T shown \<Rightarrow> \<not> ne ops shown shown \<and> \<not> ne ops (mValue p) (mValue p)
      | Var_string s \<Rightarrow>
          (mChangedInCode p \<longrightarrow> converts_back ops (mValue p))
          \<and> (case lexical_cast ops s of None \<Rightarrow> True | Some x \<Rightarrow> \<not> ne ops x x))"

fun steady :: "('f, 'd) library \<Rightarrow> ('f, 'd) ParameterBase \<Rightarrow> ('f, 'd) PangolinVariants \<Rightarrow> bool" where
  "steady L (Parameter_bool p) var =
     (case as_bool var of None \<Rightarrow> True | Some c \<Rightarrow> steady_T (bool_ops L) p c)"
| "steady L (Parameter_int p) var =
     (case as_int var of None \<Rightarrow> True | Some c \<Rightarrow> steady_T (int_ops L) p c)"
| "steady L (Parameter_float p) var =
     (case as_float var of None \<Rightarrow> True | Some c \<Rightarrow> steady_T (float_ops L) p c)"
| "steady L (Parameter_double p) var =
     (case as_double var of None \<Rightarrow> True | Some c \<Rightarrow> steady_T (double_ops L) p c)"

definition steady_binding ::
  "('f, 'd) library \<Rightarrow> ('f, 'd) ParameterBase option list
     \<Rightarrow> string \<times> pointer \<times> ('f, 'd) PangolinVariants \<Rightarrow> bool" where
  "steady_binding L h b =
     (case deref h (fst (snd b)) of Inl _ \<Rightarrow> True | Inr obj \<Rightarrow> steady L obj (snd (snd b)))"

definition steady_world :: "('f, 'd) library \<Rightarrow> ('f, 'd) world \<Rightarrow> bool" where
  "steady_world L w = list_all (steady_binding L (heap w)) (bindings w)"

text \<open>A pass over these entries from this heap changes nothing, emits nothing and
  ends with \<open>err\<close>.\<close>

fun quiet_inner ::
  "('f, 'd) library \<Rightarrow> ('f, 'd) ParameterBase option list
     \<Rightarrow> (string \<times> pointer \<times> ('f, 'd) PangolinVariants) list \<Rightarrow> error option \<Rightarrow> bool" where
  "quiet_inner L h [] err = (err = None)"
| "quiet_inner L h ((name, param, var) # rest) err =
     (case deref h param of
        Inl e \<Rightarrow> err = Some e
      | Inr obj \<Rightarrow>
          (case updateValue_which L obj var of
             Inl e \<Rightarrow> err = Some e
           | Inr (obj', var', evs) \<Rightarrow>
               obj' = obj \<and> var' = var \<and> evs = [] \<and> quiet_inner L h rest err))"

fun quiet_outer ::
  "('f, 'd) library \<Rightarrow> ('f, 'd) ParameterBase option list
     \<Rightarrow> (ParameterGroup \<times> (string \<times> pointer \<times> ('f, 'd) PangolinVariants) list) list
     \<Rightarrow> error option \<Rightarrow> bool" where
  "quiet_outer L h [] err = (err = None)"
| "quiet_outer L h ((grp, inner) # groups) err =
     ((err \<noteq> None \<and> quiet_inner L h inner err)
      \<or> (quiet_inner L h inner None \<and> quiet_outer L h groups err))"

text \<open>The text of a control converts to the type of the parameter.\<close>

fun converts :: "('f, 'd) library \<Rightarrow> ('f, 'd) ParameterBase \<Rightarrow> string \<Rightarrow> bool" where
  "converts L (Parameter_bool p) s = (lexical_cast (bool_ops L) s \<noteq> None)"
| "converts L (Parameter_int p) s = (lexical_cast (int_ops L) s \<noteq> None)"
| "converts L (Parameter_float p) s = (lexical_cast (float_ops L) s \<noteq> None)"
| "converts L (Parameter_double p) s = (lexical_cast (double_ops L) s \<noteq> None)"

text \<open>
  The state a call leaves, whether it returns or not; the constructions of a list
  of objects, one after the other; a group and name that \<^verbatim>\<open>parametersDict\<close> has an
  entry for; and the names of a group in the order in which the loop of
  \<^verbatim>\<open>createPangolinEntries\<close> visits them.
\<close>

definition state_of :: "(error \<times> 'w) + 'w \<Rightarrow> 'w" where
  "state_of r = (case r of Inl (e, w) \<Rightarrow> w | Inr w \<Rightarrow> w)"

fun construct_all :: "('f, 'd) ParameterBase list \<Rightarrow> ('f, 'd) world \<Rightarrow> ('f, 'd) world" where
  "construct_all [] w = w"
| "construct_all (obj # objs) w = construct_all objs (snd (construct obj w))"

definition registered :: "ParameterGroup \<Rightarrow> string \<Rightarrow> ('f, 'd) world \<Rightarrow> bool" where
  "registered grp name w =
     (case map_find grp (parametersDict w) of
        None \<Rightarrow> False
      | Some inner \<Rightarrow> map_find name inner \<noteq> None)"

definition visiting_order :: "ParameterGroup \<Rightarrow> ('f, 'd) world \<Rightarrow> string list" where
  "visiting_order grp w = map fst (fst (map_at grp [] (parametersDict w)))"


section \<open>Examples\<close>

text \<open>
  Two parameters under one group and name, a \<^verbatim>\<open>TEXTINPUT\<close> parameter of another
  group, and two parameters of one group declared against the order of their
  names. The last argument of each constructor stands for its callback.
\<close>

definition threshold_first :: "(unit, unit) ParameterBase" where
  "threshold_first = Parameter_int (Parameter_MINMAX ''threshold'' 5 0 10 TRACKING 1)"

definition threshold_second :: "(unit, unit) ParameterBase" where
  "threshold_second = Parameter_int (Parameter_TEXTINPUT std_int_ops ''threshold'' 9 TRACKING 2)"

definition count_text :: "(unit, unit) ParameterBase" where
  "count_text = Parameter_int (Parameter_TEXTINPUT std_int_ops ''count'' 9 MAIN 2)"

definition declared_b :: "(unit, unit) ParameterBase" where
  "declared_b = Parameter_int (Parameter_MINMAX ''b'' 1 0 10 MAIN 3)"

definition declared_a :: "(unit, unit) ParameterBase" where
  "declared_a = Parameter_bool (Parameter_BOOL std_bool_ops ''a'' True False MAIN 4)"

text \<open>
  Two things that happen between passes: the program calls \<^verbatim>\<open>setValue\<close> through a
  \<^verbatim>\<open>Parameter<int>*\<close> that points to a live \<^verbatim>\<open>Parameter<int>\<close>, and the user enters a
  value into the control of a binding.
\<close>

definition program_sets_int :: "nat \<Rightarrow> int \<Rightarrow> ('f, 'd) world \<Rightarrow> ('f, 'd) world" where
  "program_sets_int a v w =
     (case deref (heap w) (Addr a) of
        Inr (Parameter_int p) \<Rightarrow>
          w\<lparr> heap := store (heap w) (Addr a) (Parameter_int (fst (setValue v p))),
             trace := trace w @ snd (setValue v p) \<rparr>
      | _ \<Rightarrow> w)"

definition user_enters ::
  "ParameterGroup \<Rightarrow> string \<Rightarrow> ('f, 'd) PangolinVariants \<Rightarrow> ('f, 'd) world \<Rightarrow> ('f, 'd) world" where
  "user_enters grp name shown w =
     w\<lparr> pangolinParams :=
         map (\<lambda>(g, inner).
                (g, map (\<lambda>(n, param, var).
                           (n, param, if g = grp \<and> n = name then shown else var)) inner))
           (pangolinParams w) \<rparr>"

text \<open>
  Two parameters declared and bound to controls on the panel \<^verbatim>\<open>ui\<close>; then the same
  with \<^verbatim>\<open>threshold\<close> set to 7 by the program and 42 entered for \<^verbatim>\<open>count\<close>; with
  \<^verbatim>\<open>threshold\<close> set to 7 and \<^verbatim>\<open>abc\<close> entered for \<^verbatim>\<open>count\<close>; and with \<^verbatim>\<open>threshold\<close>
  destroyed.
\<close>

definition world_declared :: "(unit, unit) world" where
  "world_declared = construct_all [threshold_first, count_text] initial_world"

definition world_panel :: "(unit, unit) world" where
  "world_panel =
     state_of (createPangolinEntries integral_library ''ui'' MAIN
       (state_of (createPangolinEntries integral_library ''ui'' TRACKING world_declared)))"

definition world_changed :: "(unit, unit) world" where
  "world_changed =
     user_enters MAIN ''count'' (Var_std_string ''42'') (program_sets_int 0 7 world_panel)"

definition world_mistyped :: "(unit, unit) world" where
  "world_mistyped =
     user_enters MAIN ''count'' (Var_std_string ''abc'') (program_sets_int 0 7 world_panel)"

definition world_destroyed :: "(unit, unit) world" where
  "world_destroyed = state_of (destroy 0 world_panel)"

section \<open>A value type that loses digits in text\<close>

text \<open>
  A value type with the two traits of \<^verbatim>\<open>float\<close> and \<^verbatim>\<open>double\<close> that the flags depend on:
  \<^verbatim>\<open>std::to_string\<close> prints six decimals, fewer than a value has, and one value, NaN,
  differs from itself under \<^verbatim>\<open>operator!=\<close>. A finite value is a whole number of
  ten-millionths. \<open>to_string_coarse\<close> rounds it to six decimals, half to even, as
  \<^verbatim>\<open>%f\<close> does with the value a \<^verbatim>\<open>double\<close> holds; \<open>lexical_cast_coarse\<close> reads a sign,
  digits and, after a point, up to seven digits, or the text \<^verbatim>\<open>nan\<close>. It stands for
  \<^verbatim>\<open>double\<close> in the examples. It is not IEEE arithmetic, and what is proved of every
  library does not use it.
\<close>

datatype coarse = Tenmillionths int | NaN

definition ne_coarse :: "coarse \<Rightarrow> coarse \<Rightarrow> bool" where
  "ne_coarse a b =
     (case a of
        NaN \<Rightarrow> True
      | Tenmillionths m \<Rightarrow> (case b of NaN \<Rightarrow> True | Tenmillionths n \<Rightarrow> m \<noteq> n))"

function decimal_digits :: "int \<Rightarrow> string" where
  "decimal_digits n =
     (if n < 10 then [digit_char (nat n)]
      else decimal_digits (n div 10) @ [digit_char (nat (n mod 10))])"
  by pat_completeness auto
termination
  by (relation "measure nat") auto

declare decimal_digits.simps [simp del]

fun parse_decimal :: "string \<Rightarrow> int \<Rightarrow> int option" where
  "parse_decimal [] acc = Some acc"
| "parse_decimal (c # cs) acc =
     (case digit_value c of None \<Rightarrow> None | Some d \<Rightarrow> parse_decimal cs (acc * 10 + int d))"

definition six_decimals :: "int \<Rightarrow> int" where
  "six_decimals a =
     (if a mod 10 > 5 \<or> (a mod 10 = 5 \<and> odd (a div 10)) then a div 10 + 1 else a div 10)"

definition to_string_coarse :: "coarse \<Rightarrow> string" where
  "to_string_coarse v =
     (case v of
        NaN \<Rightarrow> ''nan''
      | Tenmillionths n \<Rightarrow>
          (let m = six_decimals \<bar>n\<bar>;
               fraction = decimal_digits (m mod 1000000)
           in (if n < 0 then ''-'' else [])
              @ decimal_digits (m div 1000000) @ ''.''
              @ replicate (6 - length fraction) (CHR ''0'') @ fraction))"

definition lexical_cast_coarse :: "string \<Rightarrow> coarse option" where
  "lexical_cast_coarse s =
     (if s = ''nan'' then Some NaN
      else
        (let negative = (s \<noteq> [] \<and> hd s = CHR ''-'');
             body = (if s \<noteq> [] \<and> (hd s = CHR ''-'' \<or> hd s = CHR ''+'') then tl s else s);
             whole = takeWhile (\<lambda>c. c \<noteq> CHR ''.'') body;
             fraction = drop 1 (dropWhile (\<lambda>c. c \<noteq> CHR ''.'') body)
         in if whole = [] \<or> 7 < length fraction then None
            else (case parse_decimal
                         (whole @ fraction @ replicate (7 - length fraction) (CHR ''0'')) 0 of
                    None \<Rightarrow> None
                  | Some n \<Rightarrow> Some (Tenmillionths (if negative then - n else n)))))"

definition coarse_ops :: "coarse T_ops" where
  "coarse_ops =
     \<lparr> ne = ne_coarse, to_string = to_string_coarse, lexical_cast = lexical_cast_coarse,
       T_of_zero = Tenmillionths 0,
       T_of_bool = (\<lambda>b. Tenmillionths (if b then 10000000 else 0)) \<rparr>"

definition coarse_library :: "(coarse, coarse) library" where
  "coarse_library =
     \<lparr> bool_ops = std_bool_ops, int_ops = std_int_ops,
       float_ops = coarse_ops, double_ops = coarse_ops \<rparr>"

text \<open>
  A \<^verbatim>\<open>TEXTINPUT\<close> parameter with \<^verbatim>\<open>mChangedInCode\<close> set for whose value
  \<^verbatim>\<open>std::to_string\<close> writes a text that converts to a value that differs from it; and
  \<^verbatim>\<open>onUpdate()\<close> and \<^verbatim>\<open>mChangedThroughPangolin\<close> of an object of any of the four types.
\<close>

definition lossy_T :: "'a T_ops \<Rightarrow> 'a Parameter \<Rightarrow> bool" where
  "lossy_T ops p =
     (mCategory p = TEXTINPUT \<and> mChangedInCode p
      \<and> (case lexical_cast ops (to_string ops (mValue p)) of
            None \<Rightarrow> False
          | Some z \<Rightarrow> ne ops z (mValue p)))"

fun lossy :: "('f, 'd) library \<Rightarrow> ('f, 'd) ParameterBase \<Rightarrow> bool" where
  "lossy L (Parameter_bool p) = lossy_T (bool_ops L) p"
| "lossy L (Parameter_int p) = lossy_T (int_ops L) p"
| "lossy L (Parameter_float p) = lossy_T (float_ops L) p"
| "lossy L (Parameter_double p) = lossy_T (double_ops L) p"

fun onUpdate_of :: "('f, 'd) ParameterBase \<Rightarrow> event list" where
  "onUpdate_of (Parameter_bool p) = onUpdate p"
| "onUpdate_of (Parameter_int p) = onUpdate p"
| "onUpdate_of (Parameter_float p) = onUpdate p"
| "onUpdate_of (Parameter_double p) = onUpdate p"

fun changedThroughPangolin :: "('f, 'd) ParameterBase \<Rightarrow> bool" where
  "changedThroughPangolin (Parameter_bool p) = mChangedThroughPangolin p"
| "changedThroughPangolin (Parameter_int p) = mChangedThroughPangolin p"
| "changedThroughPangolin (Parameter_float p) = mChangedThroughPangolin p"
| "changedThroughPangolin (Parameter_double p) = mChangedThroughPangolin p"

text \<open>
  The program calls \<^verbatim>\<open>setValue\<close> through a \<^verbatim>\<open>Parameter<double>*\<close> that points to a live
  \<^verbatim>\<open>Parameter<double>\<close>. A \<^verbatim>\<open>TEXTINPUT\<close> parameter \<^verbatim>\<open>scale\<close> of value 0.5 and a \<^verbatim>\<open>MINMAX\<close>
  parameter \<^verbatim>\<open>gain\<close> of value 0.5 between 0 and 1; and \<^verbatim>\<open>scale\<close> declared, bound to a
  control on the panel \<^verbatim>\<open>ui\<close> and then set to 0.1234567 by the program.
\<close>

definition program_sets_double :: "nat \<Rightarrow> 'd \<Rightarrow> ('f, 'd) world \<Rightarrow> ('f, 'd) world" where
  "program_sets_double a v w =
     (case deref (heap w) (Addr a) of
        Inr (Parameter_double p) \<Rightarrow>
          w\<lparr> heap := store (heap w) (Addr a) (Parameter_double (fst (setValue v p))),
             trace := trace w @ snd (setValue v p) \<rparr>
      | _ \<Rightarrow> w)"

definition scale_parameter :: "coarse Parameter" where
  "scale_parameter = Parameter_TEXTINPUT coarse_ops ''scale'' (Tenmillionths 5000000) MAIN 5"

definition world_scale :: "(coarse, coarse) world" where
  "world_scale =
     program_sets_double 0 (Tenmillionths 1234567)
       (state_of (createPangolinEntries coarse_library ''ui'' MAIN
          (construct_all [Parameter_double scale_parameter] initial_world)))"

definition gain_parameter :: "coarse Parameter" where
  "gain_parameter =
     Parameter_MINMAX ''gain'' (Tenmillionths 5000000) (Tenmillionths 0)
       (Tenmillionths 10000000) MAIN 6"

(*PROPERTIES*)

section \<open>\<^verbatim>\<open>updateValue\<close>, control by control\<close>

lemma updateValue_Var_T:
  "updateValue ops p (Var_T shown) =
     (if mCategory p = TEXTINPUT then Inl bad_get
      else if \<not> ne ops shown (mValue p) then Inr (p, Var_T shown, [])
      else if mChangedInCode p then
        Inr (p\<lparr> mChangedInCode := False \<rparr>, Var_T (mValue p),
             [value_message p, OnUpdate (mOnUpdateCallback p)])
      else
        Inr (p\<lparr> mValue := shown, mChangedThroughPangolin := True \<rparr>, Var_T shown,
             [value_message p, OnUpdate (mOnUpdateCallback p)]))"
  by (simp add: updateValue_def Let_def onUpdate_def setValueInternal_def)

lemma updateValue_Var_string:
  "updateValue ops p (Var_string text) =
     (if mCategory p \<noteq> TEXTINPUT then Inl bad_get
      else case lexical_cast ops text of
        None \<Rightarrow> Inl bad_lexical_cast
      | Some x \<Rightarrow>
          if mChangedInCode p then
            Inr (p\<lparr> mChangedInCode := False \<rparr>, Var_string (to_string ops (mValue p)),
                 [value_message p, OnUpdate (mOnUpdateCallback p)])
          else if ne ops x (mValue p) then
            Inr (p\<lparr> mValue := x, mChangedThroughPangolin := True \<rparr>, Var_string text,
                 [value_message p, OnUpdate (mOnUpdateCallback p)])
          else Inr (p, Var_string text, []))"
  by (simp add: updateValue_def Let_def onUpdate_def setValueInternal_def split: option.splits)

lemma updateValue_push:
  assumes "mChangedInCode p" and "fits p c" and "external_value ops c = Some x"
    and "mCategory p = TEXTINPUT \<or> ne ops x (mValue p)"
  shows "updateValue ops p c =
     Inr (p\<lparr> mChangedInCode := False \<rparr>, show_as ops c (mValue p),
          [value_message p, OnUpdate (mOnUpdateCallback p)])"
  using assms
  by (cases c)
    (auto simp: updateValue_Var_T updateValue_Var_string fits_def external_value_def show_as_def)

lemma updateValue_pull:
  assumes "\<not> mChangedInCode p" and "fits p c" and "external_value ops c = Some x"
    and "ne ops x (mValue p)"
  shows "updateValue ops p c =
     Inr (p\<lparr> mValue := x, mChangedThroughPangolin := True \<rparr>, c,
          [value_message p, OnUpdate (mOnUpdateCallback p)])"
  using assms
  by (cases c)
    (auto simp: updateValue_Var_T updateValue_Var_string fits_def external_value_def)

lemma updateValue_cases:
  assumes "updateValue ops p c = Inr (p', c', evs)"
  shows "(mChangedInCode p \<and> p' = p\<lparr> mChangedInCode := False \<rparr>
            \<and> c' = show_as ops c (mValue p)
            \<and> evs = [value_message p, OnUpdate (mOnUpdateCallback p)])
       \<or> (\<not> mChangedInCode p
            \<and> (\<exists>x. external_value ops c = Some x \<and> ne ops x (mValue p)
                  \<and> p' = p\<lparr> mValue := x, mChangedThroughPangolin := True \<rparr>)
            \<and> c' = c
            \<and> evs = [value_message p, OnUpdate (mOnUpdateCallback p)])
       \<or> (p' = p \<and> c' = c \<and> evs = [])"
  using assms
  by (cases c)
    (auto simp: updateValue_Var_T updateValue_Var_string external_value_def show_as_def
      split: if_splits option.splits)

section \<open>Evaluation on examples\<close>

lemma digit_char_eval:
  "digit_char 0 = CHR ''0''" "digit_char 1 = CHR ''1''" "digit_char 2 = CHR ''2''"
  "digit_char 3 = CHR ''3''" "digit_char 4 = CHR ''4''" "digit_char 5 = CHR ''5''"
  "digit_char 6 = CHR ''6''" "digit_char 7 = CHR ''7''" "digit_char 8 = CHR ''8''"
  "digit_char 9 = CHR ''9''"
  by code_simp+

lemmas example_simps = to_string_int_def digits.simps digit_char_eval parse_unsigned_def digit_value_def int_in_range_def
  std_int_ops_def Parameter_MINMAX_def Parameter_TEXTINPUT_def Parameter_BOOL_def setValue_def
  fits_def external_value_def show_as_def value_message_def

section \<open>Properties of one parameter\<close>

text \<open>
  C7. \<^verbatim>\<open>setValue(v)\<close> stores \<open>v\<close> and sets \<^verbatim>\<open>mChangedInCode\<close>; it emits nothing, so it does
  not call the callback; \<^verbatim>\<open>mChangedThroughPangolin\<close>, the name, the group, the
  category, the bounds and the callback are as before.
\<close>

theorem setValue_frame:
  "mValue (fst (setValue v p)) = v
   \<and> mChangedInCode (fst (setValue v p))
   \<and> snd (setValue v p) = []
   \<and> mChangedThroughPangolin (fst (setValue v p)) = mChangedThroughPangolin p
   \<and> mName (fst (setValue v p)) = mName p
   \<and> mGroup (fst (setValue v p)) = mGroup p
   \<and> mCategory (fst (setValue v p)) = mCategory p
   \<and> mMinValue (fst (setValue v p)) = mMinValue p
   \<and> mMaxValue (fst (setValue v p)) = mMaxValue p
   \<and> mOnUpdateCallback (fst (setValue v p)) = mOnUpdateCallback p
   \<and> fst (setValue v p) = p\<lparr> mValue := v, mChangedInCode := True \<rparr>"
  by (simp add: setValue_def)

text \<open>
  C1, as the code has it. One call of \<^verbatim>\<open>updateValue\<close> that returns has done one of three
  things: pushed the value into the control (only with \<^verbatim>\<open>mChangedInCode\<close> set), pulled
  the control's value into the parameter (only with it clear), or nothing; it has
  called the callback once in the first two cases and not at all in the third. With
  \<^verbatim>\<open>mChangedInCode\<close> set it pushes, clears the flag and calls the callback once when the
  parameter is a \<^verbatim>\<open>TEXTINPUT\<close> whose text converts, whether or not the values are
  equal, and when the parameter is of another category and the control shows a
  value that differs.
\<close>

theorem updateValue_internal_change:
  assumes "mChangedInCode p" and "fits p c" and "external_value ops c = Some x"
    and "mCategory p = TEXTINPUT \<or> ne ops x (mValue p)"
  shows "updateValue ops p c =
           Inr (p\<lparr> mChangedInCode := False \<rparr>, show_as ops c (mValue p),
                [value_message p, OnUpdate (mOnUpdateCallback p)])
     \<and> (\<forall>q k q' k' evs. updateValue ops q k = Inr (q', k', evs) \<longrightarrow>
           (mChangedInCode q \<and> q' = q\<lparr> mChangedInCode := False \<rparr>
              \<and> k' = show_as ops k (mValue q)
              \<and> evs = [value_message q, OnUpdate (mOnUpdateCallback q)])
         \<or> (\<not> mChangedInCode q
              \<and> (\<exists>y. external_value ops k = Some y \<and> ne ops y (mValue q)
                    \<and> q' = q\<lparr> mValue := y, mChangedThroughPangolin := True \<rparr>)
              \<and> k' = k
              \<and> evs = [value_message q, OnUpdate (mOnUpdateCallback q)])
         \<or> (q' = q \<and> k' = k \<and> evs = []))"
  using updateValue_push [OF assms] updateValue_cases by blast

theorem updateValue_internal_change_witness:
  "mChangedInCode (fst (setValue 7 (Parameter_TEXTINPUT std_int_ops ''count'' 7 TRACKING 3)))
   \<and> fits (fst (setValue 7 (Parameter_TEXTINPUT std_int_ops ''count'' 7 TRACKING 3))) (Var_string ''7'')
   \<and> external_value std_int_ops (Var_string ''7'') = Some 7
   \<and> updateValue std_int_ops (fst (setValue 7 (Parameter_TEXTINPUT std_int_ops ''count'' 7 TRACKING 3)))
        (Var_string ''7'')
      = Inr (Parameter_TEXTINPUT std_int_ops ''count'' 7 TRACKING 3, Var_string ''7'',
             [DLOG_INFO ''Parameter value of count is: '', OnUpdate 3])"
proof -
  let ?p = "fst (setValue 7 (Parameter_TEXTINPUT std_int_ops ''count'' 7 TRACKING 3))"
  have h1: "mChangedInCode ?p" by (simp add: example_simps)
  have h2: "fits ?p (Var_string ''7'')" by (simp add: example_simps)
  have h3: "external_value std_int_ops (Var_string ''7'') = Some 7" by (simp add: example_simps)
  have h4: "mCategory ?p = TEXTINPUT \<or> ne std_int_ops 7 (mValue ?p)" by (simp add: example_simps)
  from updateValue_internal_change [OF h1 h2 h3 h4, THEN conjunct1]
  have "updateValue std_int_ops ?p (Var_string ''7'')
      = Inr (Parameter_TEXTINPUT std_int_ops ''count'' 7 TRACKING 3, Var_string ''7'',
             [DLOG_INFO ''Parameter value of count is: '', OnUpdate 3])"
    by (simp add: example_simps)
  with h1 h2 h3 show ?thesis by blast
qed

text \<open>
  C1 as stated fails in two places. Where the values are equal and the parameter is
  not a \<^verbatim>\<open>TEXTINPUT\<close>: after \<^verbatim>\<open>setValue(5)\<close> on a \<^verbatim>\<open>MINMAX\<close> parameter whose control shows
  5 already, \<^verbatim>\<open>updateValue\<close> leaves \<^verbatim>\<open>mChangedInCode\<close> set and calls no callback. And
  where the text of a \<^verbatim>\<open>TEXTINPUT\<close> does not convert: \<^verbatim>\<open>updateValue\<close> throws before it
  reads \<^verbatim>\<open>mChangedInCode\<close>.
\<close>

theorem updateValue_equal_values_counterexample:
  "mChangedInCode (fst (setValue 5 (Parameter_MINMAX ''gain'' 1 0 10 MAIN 3)))
   \<and> updateValue std_int_ops (fst (setValue 5 (Parameter_MINMAX ''gain'' 1 0 10 MAIN 3))) (Var_T 5)
      = Inr (fst (setValue 5 (Parameter_MINMAX ''gain'' 1 0 10 MAIN 3)), Var_T 5, [])
   \<and> mChangedInCode (fst (setValue 5 (Parameter_TEXTINPUT std_int_ops ''count'' 1 MAIN 3)))
   \<and> updateValue std_int_ops (fst (setValue 5 (Parameter_TEXTINPUT std_int_ops ''count'' 1 MAIN 3)))
        (Var_string ''five'') = Inl bad_lexical_cast"
  by (simp add: updateValue_Var_T updateValue_Var_string example_simps)

lemma check_again_flag: "\<not> mChangedThroughPangolin (check_again p)"
  by (simp add: check_again_def checkAndResetIfChanged_def)

lemma check_again_funpow: "\<not> mChangedThroughPangolin ((check_again ^^ Suc n) p)"
  by (simp add: check_again_flag)

text \<open>
  A call of \<^verbatim>\<open>updateValue\<close> that finds \<^verbatim>\<open>mChangedInCode\<close> clear and a differing value in
  the control pulls that value; the next \<^verbatim>\<open>checkAndResetIfChanged\<close> returns true and
  the calls that follow it directly return false; \<^verbatim>\<open>setValue\<close> does not touch the
  flag, and a call of \<^verbatim>\<open>updateValue\<close> sets it only by pulling a value that differs
  from the one held.
\<close>

lemma checkAndResetIfChanged_one_shot:
  assumes "\<not> mChangedInCode p" and "fits p c" and "external_value ops c = Some x"
    and "ne ops x (mValue p)"
  shows "updateValue ops p c =
           Inr (p\<lparr> mValue := x, mChangedThroughPangolin := True \<rparr>, c,
                [value_message p, OnUpdate (mOnUpdateCallback p)])
     \<and> checkAndResetIfChanged (p\<lparr> mValue := x, mChangedThroughPangolin := True \<rparr>)
         = (True, p\<lparr> mValue := x, mChangedThroughPangolin := False \<rparr>)
     \<and> (\<forall>n. fst (checkAndResetIfChanged ((check_again ^^ Suc n)
                 (p\<lparr> mValue := x, mChangedThroughPangolin := True \<rparr>))) = False)
     \<and> (\<forall>q v. mChangedThroughPangolin (fst (setValue v q)) = mChangedThroughPangolin q)
     \<and> (\<forall>q k q' k' evs. updateValue ops q k = Inr (q', k', evs)
           \<and> \<not> mChangedThroughPangolin q \<and> mChangedThroughPangolin q' \<longrightarrow>
           \<not> mChangedInCode q
           \<and> (\<exists>y. external_value ops k = Some y \<and> ne ops y (mValue q) \<and> mValue q' = y))"
proof (intro conjI allI impI)
  show "updateValue ops p c =
           Inr (p\<lparr> mValue := x, mChangedThroughPangolin := True \<rparr>, c,
                [value_message p, OnUpdate (mOnUpdateCallback p)])"
    by (rule updateValue_pull [OF assms])
next
  show "checkAndResetIfChanged (p\<lparr> mValue := x, mChangedThroughPangolin := True \<rparr>)
         = (True, p\<lparr> mValue := x, mChangedThroughPangolin := False \<rparr>)"
    by (simp add: checkAndResetIfChanged_def)
next
  fix n
  show "fst (checkAndResetIfChanged ((check_again ^^ Suc n)
                 (p\<lparr> mValue := x, mChangedThroughPangolin := True \<rparr>))) = False"
    using check_again_funpow [of n "p\<lparr> mValue := x, mChangedThroughPangolin := True \<rparr>"]
    by (simp add: checkAndResetIfChanged_def)
next
  fix q :: "'b Parameter" and v
  show "mChangedThroughPangolin (fst (setValue v q)) = mChangedThroughPangolin q"
    by (simp add: setValue_def)
next
  fix q k q' k' evs
  assume h: "updateValue ops q k = Inr (q', k', evs)
           \<and> \<not> mChangedThroughPangolin q \<and> mChangedThroughPangolin q'"
  from updateValue_cases [of ops q k q' k' evs] h
  show "\<not> mChangedInCode q" by auto
  from updateValue_cases [of ops q k q' k' evs] h
  show "\<exists>y. external_value ops k = Some y \<and> ne ops y (mValue q) \<and> mValue q' = y" by auto
qed

lemma checkAndResetIfChanged_one_shot_example:
  "\<not> mChangedInCode (Parameter_MINMAX ''gain'' (1::int) 0 10 MAIN 3)
   \<and> fits (Parameter_MINMAX ''gain'' (1::int) 0 10 MAIN 3) (Var_T 5)
   \<and> external_value std_int_ops (Var_T 5) = Some 5
   \<and> ne std_int_ops 5 (mValue (Parameter_MINMAX ''gain'' (1::int) 0 10 MAIN 3))
   \<and> updateValue std_int_ops (Parameter_MINMAX ''gain'' 1 0 10 MAIN 3) (Var_T 5)
      = Inr ((Parameter_MINMAX ''gain'' 5 0 10 MAIN 3)\<lparr> mChangedThroughPangolin := True \<rparr>,
             Var_T 5, [DLOG_INFO ''Parameter value of gain is: '', OnUpdate 3])
   \<and> checkAndResetIfChanged
        ((Parameter_MINMAX ''gain'' (5::int) 0 10 MAIN 3)\<lparr> mChangedThroughPangolin := True \<rparr>)
      = (True, Parameter_MINMAX ''gain'' 5 0 10 MAIN 3)
   \<and> fst (checkAndResetIfChanged (Parameter_MINMAX ''gain'' (5::int) 0 10 MAIN 3)) = False"
proof -
  let ?p = "Parameter_MINMAX ''gain'' (1::int) 0 10 MAIN 3"
  have h1: "\<not> mChangedInCode ?p" by (simp add: example_simps)
  have h2: "fits ?p (Var_T 5)" by (simp add: example_simps)
  have h3: "external_value std_int_ops (Var_T 5) = Some 5" by (simp add: example_simps)
  have h4: "ne std_int_ops 5 (mValue ?p)" by (simp add: example_simps)
  note t = checkAndResetIfChanged_one_shot [OF h1 h2 h3 h4]
  from t [THEN conjunct1]
  have c1: "updateValue std_int_ops ?p (Var_T 5)
      = Inr ((Parameter_MINMAX ''gain'' 5 0 10 MAIN 3)\<lparr> mChangedThroughPangolin := True \<rparr>,
             Var_T 5, [DLOG_INFO ''Parameter value of gain is: '', OnUpdate 3])"
    by (simp add: example_simps)
  from t [THEN conjunct2, THEN conjunct1]
  have c2: "checkAndResetIfChanged
        ((Parameter_MINMAX ''gain'' (5::int) 0 10 MAIN 3)\<lparr> mChangedThroughPangolin := True \<rparr>)
      = (True, Parameter_MINMAX ''gain'' 5 0 10 MAIN 3)"
    by (simp add: example_simps)
  from t [THEN conjunct2, THEN conjunct2, THEN conjunct1, rule_format, of 0]
  have c3: "fst (checkAndResetIfChanged (Parameter_MINMAX ''gain'' (5::int) 0 10 MAIN 3)) = False"
    by (simp add: example_simps check_again_def checkAndResetIfChanged_def)
  from h1 h2 h3 h4 c1 c2 c3 show ?thesis by blast
qed

text \<open>
  C4, as the code has it. After \<^verbatim>\<open>setValue(v)\<close> and one call of \<^verbatim>\<open>updateValue\<close> that
  returns, the control shows \<open>v\<close>, the parameter holds \<open>v\<close>, \<^verbatim>\<open>mChangedThroughPangolin\<close>
  is as it was before \<^verbatim>\<open>setValue\<close>, and the next call changes nothing and emits
  nothing, so that \<^verbatim>\<open>checkAndResetIfChanged\<close> returns false when the flag was clear
  at the start. This needs \<open>v\<close> to compare equal to itself and, for a \<^verbatim>\<open>TEXTINPUT\<close>,
  the text written for \<open>v\<close> to convert back to it.
\<close>

theorem setValue_no_echo:
  assumes tick: "updateValue ops (fst (setValue v p)) c = Inr (p2, c2, evs)"
    and refl: "\<not> ne ops v v"
    and conv: "mCategory p = TEXTINPUT \<longrightarrow> converts_back ops v"
  shows "shows_value ops c2 v
     \<and> mValue p2 = v
     \<and> mChangedThroughPangolin p2 = mChangedThroughPangolin p
     \<and> updateValue ops p2 c2 = Inr (p2, c2, [])
     \<and> (\<not> mChangedThroughPangolin p \<longrightarrow> fst (checkAndResetIfChanged p2) = False)"
proof (cases c)
  case (Var_T g)
  with tick refl show ?thesis
    by (auto simp: updateValue_Var_T setValue_def shows_value_def external_value_def
        checkAndResetIfChanged_def split: if_splits)
next
  case (Var_string s)
  with tick refl conv show ?thesis
    by (auto simp: updateValue_Var_string setValue_def shows_value_def external_value_def
        converts_back_def checkAndResetIfChanged_def split: if_splits option.splits)
qed

theorem setValue_no_echo_witness:
  "updateValue std_int_ops (fst (setValue 7 (Parameter_MINMAX ''gain'' 1 0 10 MAIN 3))) (Var_T 1)
     = Inr (Parameter_MINMAX ''gain'' 7 0 10 MAIN 3, Var_T 7,
            [DLOG_INFO ''Parameter value of gain is: '', OnUpdate 3])
   \<and> \<not> ne std_int_ops 7 7
   \<and> converts_back std_int_ops 7
   \<and> shows_value std_int_ops (Var_T 7) 7
   \<and> updateValue std_int_ops (Parameter_MINMAX ''gain'' 7 0 10 MAIN 3) (Var_T 7)
     = Inr (Parameter_MINMAX ''gain'' 7 0 10 MAIN 3, Var_T 7, [])
   \<and> fst (checkAndResetIfChanged (Parameter_MINMAX ''gain'' (7::int) 0 10 MAIN 3)) = False"
proof -
  let ?p = "Parameter_MINMAX ''gain'' (1::int) 0 10 MAIN 3"
  let ?p2 = "Parameter_MINMAX ''gain'' (7::int) 0 10 MAIN 3"
  have h1: "updateValue std_int_ops (fst (setValue 7 ?p)) (Var_T 1)
     = Inr (?p2, Var_T 7, [DLOG_INFO ''Parameter value of gain is: '', OnUpdate 3])"
    by (simp add: updateValue_Var_T example_simps)
  have h2: "\<not> ne std_int_ops 7 7" by (simp add: example_simps)
  have h3: "converts_back std_int_ops 7"
    by (simp add: converts_back_def example_simps)
  then have "mCategory ?p = TEXTINPUT \<longrightarrow> converts_back std_int_ops 7" ..
  note t = setValue_no_echo [OF h1 h2 this]
  have h4: "\<not> mChangedThroughPangolin ?p" by (simp add: example_simps)
  from t h4 have "fst (checkAndResetIfChanged ?p2) = False" by blast
  with t h1 h2 h3 show ?thesis by blast
qed

text \<open>
  C4 as stated fails in three places, one for each condition above. The call after
  \<^verbatim>\<open>setValue(7)\<close> throws when the text of the control does not convert, and the
  control goes on showing \<^verbatim>\<open>abc\<close>. After \<^verbatim>\<open>setValue(0.1234567)\<close> on a \<^verbatim>\<open>TEXTINPUT\<close> the
  control is given the six decimals \<^verbatim>\<open>0.123457\<close>, and the next call, with nothing
  changed in between, finds a value that differs, takes it, sets
  \<^verbatim>\<open>mChangedThroughPangolin\<close> and calls the callback again. After \<^verbatim>\<open>setValue\<close> of a NaN
  on a \<^verbatim>\<open>MINMAX\<close> the control shows the NaN, which differs from the NaN held, and the
  next call does the same.
\<close>

theorem setValue_no_echo_counterexample:
  "updateValue std_int_ops
     (fst (setValue 7 (Parameter_TEXTINPUT std_int_ops ''count'' 1 TRACKING 3)))
     (Var_string ''abc'') = Inl bad_lexical_cast
   \<and> updateValue coarse_ops (fst (setValue (Tenmillionths 1234567) scale_parameter))
        (Var_string ''0.500000'')
       = Inr (scale_parameter\<lparr> mValue := Tenmillionths 1234567, mChangedInCode := False \<rparr>,
              Var_string ''0.123457'',
              [DLOG_INFO ''Parameter value of scale is: '', OnUpdate 5])
   \<and> updateValue coarse_ops
        (scale_parameter\<lparr> mValue := Tenmillionths 1234567, mChangedInCode := False \<rparr>)
        (Var_string ''0.123457'')
       = Inr (scale_parameter\<lparr> mValue := Tenmillionths 1234570, mChangedInCode := False,
                mChangedThroughPangolin := True \<rparr>,
              Var_string ''0.123457'',
              [DLOG_INFO ''Parameter value of scale is: '', OnUpdate 5])
   \<and> updateValue coarse_ops (fst (setValue NaN gain_parameter)) (Var_T (Tenmillionths 5000000))
       = Inr (gain_parameter\<lparr> mValue := NaN, mChangedInCode := False \<rparr>, Var_T NaN,
              [DLOG_INFO ''Parameter value of gain is: '', OnUpdate 6])
   \<and> updateValue coarse_ops (gain_parameter\<lparr> mValue := NaN, mChangedInCode := False \<rparr>)
        (Var_T NaN)
       = Inr (gain_parameter\<lparr> mValue := NaN, mChangedInCode := False,
                mChangedThroughPangolin := True \<rparr>,
              Var_T NaN,
              [DLOG_INFO ''Parameter value of gain is: '', OnUpdate 6])"
  by code_simp

text \<open>
  The second of these in general: whenever the text written for the value set
  converts to a value that differs from it, the call after the push pulls that
  value, sets \<^verbatim>\<open>mChangedThroughPangolin\<close> and calls the callback, and
  \<^verbatim>\<open>checkAndResetIfChanged\<close> then returns true.
\<close>

lemma setValue_echo:
  assumes "mCategory p = TEXTINPUT"
    and "lexical_cast ops s = Some x"
    and "lexical_cast ops (to_string ops v) = Some z"
    and "ne ops z v"
  shows "updateValue ops (fst (setValue v p)) (Var_string s)
           = Inr (p\<lparr> mValue := v, mChangedInCode := False \<rparr>,
                  Var_string (to_string ops v),
                  [value_message p, OnUpdate (mOnUpdateCallback p)])
     \<and> updateValue ops (p\<lparr> mValue := v, mChangedInCode := False \<rparr>)
           (Var_string (to_string ops v))
           = Inr (p\<lparr> mValue := z, mChangedInCode := False, mChangedThroughPangolin := True \<rparr>,
                  Var_string (to_string ops v),
                  [value_message p, OnUpdate (mOnUpdateCallback p)])
     \<and> fst (checkAndResetIfChanged
               (p\<lparr> mValue := z, mChangedInCode := False, mChangedThroughPangolin := True \<rparr>))
           = True"
  using assms
  by (simp add: updateValue_Var_string setValue_def checkAndResetIfChanged_def value_message_def)

lemma setValue_echo_example:
  "mCategory scale_parameter = TEXTINPUT
   \<and> lexical_cast coarse_ops ''0.500000'' = Some (Tenmillionths 5000000)
   \<and> to_string coarse_ops (Tenmillionths 1234567) = ''0.123457''
   \<and> lexical_cast coarse_ops ''0.123457'' = Some (Tenmillionths 1234570)
   \<and> ne coarse_ops (Tenmillionths 1234570) (Tenmillionths 1234567)
   \<and> updateValue coarse_ops (fst (setValue (Tenmillionths 1234567) scale_parameter))
        (Var_string ''0.500000'')
       = Inr (scale_parameter\<lparr> mValue := Tenmillionths 1234567, mChangedInCode := False \<rparr>,
              Var_string ''0.123457'',
              [DLOG_INFO ''Parameter value of scale is: '', OnUpdate 5])
   \<and> updateValue coarse_ops
        (scale_parameter\<lparr> mValue := Tenmillionths 1234567, mChangedInCode := False \<rparr>)
        (Var_string ''0.123457'')
       = Inr (scale_parameter\<lparr> mValue := Tenmillionths 1234570, mChangedInCode := False,
                mChangedThroughPangolin := True \<rparr>,
              Var_string ''0.123457'',
              [DLOG_INFO ''Parameter value of scale is: '', OnUpdate 5])
   \<and> fst (checkAndResetIfChanged
            (scale_parameter\<lparr> mValue := Tenmillionths 1234570, mChangedInCode := False,
               mChangedThroughPangolin := True \<rparr>)) = True"
proof -
  have h1: "mCategory scale_parameter = TEXTINPUT" by code_simp
  have h2: "lexical_cast coarse_ops ''0.500000'' = Some (Tenmillionths 5000000)" by code_simp
  have t: "to_string coarse_ops (Tenmillionths 1234567) = ''0.123457''" by code_simp
  have h3': "lexical_cast coarse_ops ''0.123457'' = Some (Tenmillionths 1234570)" by code_simp
  have h4: "ne coarse_ops (Tenmillionths 1234570) (Tenmillionths 1234567)" by code_simp
  from h3' t have h3: "lexical_cast coarse_ops (to_string coarse_ops (Tenmillionths 1234567))
      = Some (Tenmillionths 1234570)" by simp
  have m: "value_message scale_parameter = DLOG_INFO ''Parameter value of scale is: ''"
    "mOnUpdateCallback scale_parameter = 5" by code_simp+
  note e = setValue_echo [OF h1 h2 h3 h4, unfolded t m]
  from h1 h2 t h3' h4 e show ?thesis by blast
qed

text \<open>
  C6 fails in the code. \<^verbatim>\<open>updateValue\<close> takes the branch that its comment reserves for a
  value changed by the user whenever the control's value differs from the one
  held, and a NaN differs from itself: once a NaN has been pulled from a control,
  and \<^verbatim>\<open>checkAndResetIfChanged\<close> has returned true for it, the next call of
  \<^verbatim>\<open>updateValue\<close> on the same, unchanged control pulls it again and sets
  \<^verbatim>\<open>mChangedThroughPangolin\<close> again, and \<^verbatim>\<open>checkAndResetIfChanged\<close> returns true a second
  time for the one external change.
\<close>

theorem checkAndResetIfChanged_true_again:
  assumes "\<not> mChangedInCode p" and "fits p c" and "external_value ops c = Some x"
    and "ne ops x (mValue p)" and "ne ops x x"
  shows "updateValue ops p c
           = Inr (p\<lparr> mValue := x, mChangedThroughPangolin := True \<rparr>, c,
                  [value_message p, OnUpdate (mOnUpdateCallback p)])
     \<and> checkAndResetIfChanged (p\<lparr> mValue := x, mChangedThroughPangolin := True \<rparr>)
           = (True, p\<lparr> mValue := x, mChangedThroughPangolin := False \<rparr>)
     \<and> updateValue ops (p\<lparr> mValue := x, mChangedThroughPangolin := False \<rparr>) c
           = Inr (p\<lparr> mValue := x, mChangedThroughPangolin := True \<rparr>, c,
                  [value_message p, OnUpdate (mOnUpdateCallback p)])
     \<and> fst (checkAndResetIfChanged (p\<lparr> mValue := x, mChangedThroughPangolin := True \<rparr>))
           = True"
proof -
  let ?q = "p\<lparr> mValue := x, mChangedThroughPangolin := False \<rparr>"
  have q: "\<not> mChangedInCode ?q" "fits ?q c" "ne ops x (mValue ?q)"
    using assms by (simp_all add: fits_def split: pango_var.splits)
  from updateValue_pull [OF assms(1,2,3,4)] updateValue_pull [OF q(1,2) assms(3) q(3)]
  show ?thesis
    by (simp add: checkAndResetIfChanged_def value_message_def)
qed

theorem checkAndResetIfChanged_true_again_witness:
  "\<not> mChangedInCode scale_parameter
   \<and> fits scale_parameter (Var_string ''nan'')
   \<and> external_value coarse_ops (Var_string ''nan'') = Some NaN
   \<and> ne coarse_ops NaN (mValue scale_parameter)
   \<and> ne coarse_ops NaN NaN
   \<and> checkAndResetIfChanged (scale_parameter\<lparr> mValue := NaN, mChangedThroughPangolin := True \<rparr>)
       = (True, scale_parameter\<lparr> mValue := NaN, mChangedThroughPangolin := False \<rparr>)
   \<and> updateValue coarse_ops
        (scale_parameter\<lparr> mValue := NaN, mChangedThroughPangolin := False \<rparr>) (Var_string ''nan'')
       = Inr (scale_parameter\<lparr> mValue := NaN, mChangedThroughPangolin := True \<rparr>,
              Var_string ''nan'',
              [DLOG_INFO ''Parameter value of scale is: '', OnUpdate 5])"
proof -
  have h1: "\<not> mChangedInCode scale_parameter" by code_simp
  have h2: "fits scale_parameter (Var_string ''nan'')" by code_simp
  have h3: "external_value coarse_ops (Var_string ''nan'') = Some NaN" by code_simp
  have h4: "ne coarse_ops NaN (mValue scale_parameter)" by code_simp
  have h5: "ne coarse_ops NaN NaN" by code_simp
  have m: "value_message scale_parameter = DLOG_INFO ''Parameter value of scale is: ''"
    "mOnUpdateCallback scale_parameter = 5" by code_simp+
  note e = checkAndResetIfChanged_true_again [OF h1 h2 h3 h4 h5, unfolded m]
  from h1 h2 h3 h4 h5 e show ?thesis by blast
qed

section \<open>Properties of the registry\<close>

lemma map_of_map_assign: "map_of (map_assign k v m) = (map_of m)(k \<mapsto> v)"
  by (induction m) (auto simp: fun_eq_iff)

lemma map_find_map_assign:
  "map_find k' (map_assign k v m) = (if k' = k then Some v else map_find k' m)"
  by (simp add: map_find_def map_of_map_assign)

lemma in_map_assign:
  "(a, b) \<in> set (map_assign k v m) \<Longrightarrow> (a = k \<and> b = v) \<or> (a, b) \<in> set m"
  by (induction m) (auto split: if_splits)

lemma keys_map_assign: "fst ` set (map_assign k v m) = insert k (fst ` set m)"
  by (induction m) force+

lemma sorted_map_assign:
  "sorted_wrt (<) (map fst m) \<Longrightarrow> sorted_wrt (<) (map fst (map_assign k v m))"
proof (induction m)
  case Nil
  then show ?case by simp
next
  case (Cons e m)
  obtain k' v' where e: "e = (k', v')" by (cases e)
  from Cons show ?case
    by (auto simp: e dest!: in_map_assign)
qed

lemma map_find_after_at:
  "map_find k' (map_assign k v (snd (map_at k d m))) = (if k' = k then Some v else map_find k' m)"
  by (auto simp: map_at_def map_find_map_assign split: option.splits)

lemmas example_objects = threshold_first_def threshold_second_def

text \<open>
  C8. Constructing a parameter under a group and name that are registered already
  (as they are after any construction under them) returns as every construction
  does, with the object at a new address; it logs the warning
  \<^verbatim>\<open>Duplicate parameter: <name>\<close>; and \<^verbatim>\<open>getParameter\<close> for that group and name then
  returns the address of the new object, without a diagnostic.
\<close>

theorem construct_duplicate:
  assumes "registered (getGroup obj) (getName obj) w"
  shows "fst (construct obj w) = length (heap w)
     \<and> trace (snd (construct obj w))
         = trace w @ [LOG_WARNING (''Duplicate parameter: '' @ getName obj)]
     \<and> getParameter (getGroup obj) (getName obj) (snd (construct obj w))
         = (Addr (fst (construct obj w)), snd (construct obj w))
     \<and> deref (heap (snd (construct obj w))) (Addr (fst (construct obj w))) = Inr obj
     \<and> (\<forall>first v. registered (getGroup first) (getName first) (snd (construct first v)))"
proof -
  have "registered (getGroup first) (getName first) (snd (construct first v))"
    for first :: "('c, 'e) ParameterBase" and v
    by (simp add: registered_def construct_def Let_def split_def map_find_after_at
        map_find_map_assign)
  with assms show ?thesis
    by (auto simp: registered_def construct_def Let_def split_def getParameter_def
        map_find_after_at map_at_def map_find_map_assign nth_append split: option.splits)
qed

theorem construct_duplicate_witness:
  "registered (getGroup threshold_second) (getName threshold_second)
     (snd (construct threshold_first initial_world))
   \<and> getParameter TRACKING ''threshold''
        (snd (construct threshold_second (snd (construct threshold_first initial_world))))
      = (Addr 1, snd (construct threshold_second (snd (construct threshold_first initial_world))))
   \<and> deref (heap (snd (construct threshold_second (snd (construct threshold_first initial_world)))))
        (Addr 1) = Inr threshold_second
   \<and> trace (snd (construct threshold_second (snd (construct threshold_first initial_world))))
      = [LOG_WARNING ''Duplicate parameter: threshold'']"
proof -
  let ?w = "snd (construct threshold_first initial_world)"
  have h: "registered (getGroup threshold_second) (getName threshold_second) ?w"
    by code_simp
  have a: "fst (construct threshold_second ?w) = 1" by code_simp
  have g: "getGroup threshold_second = TRACKING" "getName threshold_second = ''threshold''"
    by code_simp+
  have t: "trace ?w = []" by code_simp
  note c = construct_duplicate [OF h]
  from c [THEN conjunct2, THEN conjunct2, THEN conjunct1] a g
  have c1: "getParameter TRACKING ''threshold'' (snd (construct threshold_second ?w))
      = (Addr 1, snd (construct threshold_second ?w))" by simp
  from c [THEN conjunct2, THEN conjunct2, THEN conjunct2, THEN conjunct1] a
  have c2: "deref (heap (snd (construct threshold_second ?w))) (Addr 1) = Inr threshold_second"
    by simp
  from c [THEN conjunct2, THEN conjunct1] g t
  have c3: "trace (snd (construct threshold_second ?w))
      = [LOG_WARNING ''Duplicate parameter: threshold'']" by simp
  from h c1 c2 c3 show ?thesis by blast
qed

lemma destroy_live:
  assumes "deref (heap w) (Addr a) = Inr obj"
  shows "destroy a w =
     Inr (w\<lparr> heap := (heap w)[a := None],
            parametersDict :=
              map_assign (getGroup obj)
                (map_assign (getName obj) nullptr (fst (map_at (getGroup obj) [] (parametersDict w))))
                (snd (map_at (getGroup obj) [] (parametersDict w))),
            trace := trace w @ [LOG_WARNING (''Parameter being deleted: '' @ getName obj)] \<rparr>)"
  using assms by (simp add: destroy_def Let_def split_def)

text \<open>
  C10. After the destructor of a live parameter has run, \<^verbatim>\<open>getParameter\<close> for its group
  and name returns \<^verbatim>\<open>nullptr\<close> and leaves the state, the trace included, as it is:
  no diagnostic. A lookup that misses the group or the name returns \<^verbatim>\<open>nullptr\<close> too,
  and appends a \<^verbatim>\<open>DLOG(WARNING)\<close> line to the trace.
\<close>

theorem destroyed_lookup:
  assumes "deref (heap w) (Addr a) = Inr obj"
  shows "(\<exists>w'. destroy a w = Inr w'
           \<and> getParameter (getGroup obj) (getName obj) w' = (nullptr, w'))
     \<and> (\<forall>grp name (v :: ('f, 'd) world).
           map_find grp (parametersDict v) = None
           \<or> (\<exists>inner. map_find grp (parametersDict v) = Some inner \<and> map_find name inner = None)
           \<longrightarrow> fst (getParameter grp name v) = nullptr
               \<and> (\<exists>msg. trace (snd (getParameter grp name v)) = trace v @ [DLOG_WARNING msg]))"
proof -
  have gone: "\<exists>w'. destroy a w = Inr w'
           \<and> getParameter (getGroup obj) (getName obj) w' = (nullptr, w')"
    by (simp add: destroy_live [OF assms] getParameter_def map_find_after_at map_find_map_assign)
  have miss: "fst (getParameter grp name v) = nullptr
               \<and> (\<exists>msg. trace (snd (getParameter grp name v)) = trace v @ [DLOG_WARNING msg])"
    if "map_find grp (parametersDict v) = None
           \<or> (\<exists>inner. map_find grp (parametersDict v) = Some inner \<and> map_find name inner = None)"
    for grp name and v :: "('f, 'd) world"
    using that by (auto simp: getParameter_def)
  from gone miss show ?thesis by blast
qed

section \<open>Properties of a pass of \<^verbatim>\<open>updateParameters\<close>\<close>

lemma steady_T_fix:
  assumes "steady_T ops p c" and "updateValue ops p c = Inr (p', c', evs)"
  shows "updateValue ops p' c' = Inr (p', c', [])"
proof (cases c)
  case (Var_T shown)
  with assms show ?thesis
    by (auto simp: updateValue_Var_T steady_T_def split: if_splits)
next
  case (Var_string s)
  with assms show ?thesis
    by (auto simp: updateValue_Var_string steady_T_def converts_back_def
        split: if_splits option.splits)
qed

lemma as_of_pango_var:
  "as_bool (of_pango_var Var_bool cb) = Some cb"
  "as_int (of_pango_var Var_int ci) = Some ci"
  "as_float (of_pango_var Var_float cf) = Some cf"
  "as_double (of_pango_var Var_double cd) = Some cd"
proof -
  show "as_bool (of_pango_var Var_bool cb) = Some cb" by (cases cb) simp_all
  show "as_int (of_pango_var Var_int ci) = Some ci" by (cases ci) simp_all
  show "as_float (of_pango_var Var_float cf) = Some cf" by (cases cf) simp_all
  show "as_double (of_pango_var Var_double cd) = Some cd" by (cases cd) simp_all
qed

lemma updateValue_on_fix:
  assumes "\<And>c. as_T (of_pango_var new_Var c) = Some c"
    and "case as_T var of None \<Rightarrow> True | Some c \<Rightarrow> steady_T ops p c"
    and "updateValue_on ops obj_of new_Var p (as_T var) = Inr (obj', var', evs)"
  shows "\<exists>p'. obj' = obj_of p'
     \<and> updateValue_on ops obj_of new_Var p' (as_T var') = Inr (obj', var', [])"
proof (cases "as_T var")
  case None
  with assms(3) show ?thesis by (simp add: updateValue_on_def)
next
  case (Some c)
  with assms(3) obtain p' c' where
    u: "updateValue ops p c = Inr (p', c', evs)" and o: "obj' = obj_of p'"
    and v: "var' = of_pango_var new_Var c'"
    by (auto simp: updateValue_on_def split: sum.splits)
  from assms(2) Some have "steady_T ops p c" by simp
  from steady_T_fix [OF this u] o v assms(1) show ?thesis
    by (intro exI [of _ p']) (simp add: updateValue_on_def)
qed

lemma steady_fix:
  assumes "steady L obj var" and "updateValue_which L obj var = Inr (obj', var', evs)"
  shows "updateValue_which L obj' var' = Inr (obj', var', [])"
proof (cases obj)
  case (Parameter_bool p)
  with assms have "case as_bool var of None \<Rightarrow> True | Some c \<Rightarrow> steady_T (bool_ops L) p c"
    and "updateValue_on (bool_ops L) Parameter_bool Var_bool p (as_bool var) = Inr (obj', var', evs)"
    by simp_all
  from updateValue_on_fix [OF as_of_pango_var(1) this] show ?thesis by auto
next
  case (Parameter_int p)
  with assms have "case as_int var of None \<Rightarrow> True | Some c \<Rightarrow> steady_T (int_ops L) p c"
    and "updateValue_on (int_ops L) Parameter_int Var_int p (as_int var) = Inr (obj', var', evs)"
    by simp_all
  from updateValue_on_fix [OF as_of_pango_var(2) this] show ?thesis by auto
next
  case (Parameter_float p)
  with assms have "case as_float var of None \<Rightarrow> True | Some c \<Rightarrow> steady_T (float_ops L) p c"
    and "updateValue_on (float_ops L) Parameter_float Var_float p (as_float var) = Inr (obj', var', evs)"
    by simp_all
  from updateValue_on_fix [OF as_of_pango_var(3) this] show ?thesis by auto
next
  case (Parameter_double p)
  with assms have "case as_double var of None \<Rightarrow> True | Some c \<Rightarrow> steady_T (double_ops L) p c"
    and "updateValue_on (double_ops L) Parameter_double Var_double p (as_double var) = Inr (obj', var', evs)"
    by simp_all
  from updateValue_on_fix [OF as_of_pango_var(4) this] show ?thesis by auto
qed

lemma deref_store_other: "param \<noteq> q \<Longrightarrow> deref (store h q obj) param = deref h param"
  by (cases q; cases param) auto

lemma deref_store_same: "deref h q = Inr obj0 \<Longrightarrow> deref (store h q obj) q = Inr obj"
  by (cases q) (auto split: if_splits)

lemma store_id: "deref h q = Inr obj \<Longrightarrow> store h q obj = h"
  by (cases q) (auto split: if_splits option.splits simp: list_update_same_conv)

lemma inner_frame:
  "updateParameters_inner L es h = (es', h', evs, err) \<Longrightarrow>
     map (\<lambda>b. fst (snd b)) es' = map (\<lambda>b. fst (snd b)) es
     \<and> (\<forall>q. q \<notin> set (map (\<lambda>b. fst (snd b)) es) \<longrightarrow> deref h' q = deref h q)"
proof (induction es arbitrary: h es' h' evs err)
  case Nil
  then show ?case by simp
next
  case (Cons b rest)
  obtain name param var where b: "b = (name, param, var)" by (cases b)
  show ?case
  proof (cases "deref h param")
    case (Inl e)
    with Cons.prems b show ?thesis by auto
  next
    case (Inr obj)
    show ?thesis
    proof (cases "updateValue_which L obj var")
      case (Inl e)
      with Cons.prems b Inr show ?thesis by auto
    next
      case inr: (Inr r)
      obtain obj' var' evs1 where r: "r = (obj', var', evs1)" by (cases r)
      obtain rest' h1 evs2 err2 where
        run: "updateParameters_inner L rest (store h param obj') = (rest', h1, evs2, err2)"
        by (cases "updateParameters_inner L rest (store h param obj')")
      from Cons.prems b Inr inr r run
      have res: "es' = (name, param, var') # rest'" "h' = h1" by auto
      from Cons.IH [OF run] res b show ?thesis
        by (auto simp: deref_store_other)
    qed
  qed
qed

lemma quiet_inner_run:
  "quiet_inner L h es err \<Longrightarrow> updateParameters_inner L es h = (es, h, [], err)"
proof (induction es)
  case Nil
  then show ?case by simp
next
  case (Cons b rest)
  obtain name param var where b: "b = (name, param, var)" by (cases b)
  from Cons show ?case
    by (auto simp: b store_id split: sum.splits)
qed

lemma quiet_inner_cong:
  "\<forall>q \<in> set (map (\<lambda>b. fst (snd b)) es). deref h2 q = deref h q \<Longrightarrow>
     quiet_inner L h es err \<Longrightarrow> quiet_inner L h2 es err"
proof (induction es)
  case Nil
  then show ?case by simp
next
  case (Cons b rest)
  obtain name param var where b: "b = (name, param, var)" by (cases b)
  from Cons show ?case
    by (auto simp: b split: sum.splits)
qed

lemma first_run_quiet_inner:
  assumes "distinct (map (\<lambda>b. fst (snd b)) es)"
    and "\<forall>b \<in> set es. steady_binding L h b"
    and "updateParameters_inner L es h = (es', h', evs, err)"
  shows "quiet_inner L h' es' err"
  using assms
proof (induction es arbitrary: h es' h' evs err)
  case Nil
  then show ?case by simp
next
  case (Cons b rest)
  obtain name param var where b: "b = (name, param, var)" by (cases b)
  show ?case
  proof (cases "deref h param")
    case (Inl e)
    with Cons.prems b show ?thesis by auto
  next
    case (Inr obj)
    show ?thesis
    proof (cases "updateValue_which L obj var")
      case (Inl e)
      with Cons.prems b Inr show ?thesis by auto
    next
      case inr: (Inr r)
      obtain obj' var' evs1 where r: "r = (obj', var', evs1)" by (cases r)
      obtain rest' h1 evs2 err2 where
        run: "updateParameters_inner L rest (store h param obj') = (rest', h1, evs2, err2)"
        by (cases "updateParameters_inner L rest (store h param obj')")
      from Cons.prems(3) b Inr inr r run
      have res: "es' = (name, param, var') # rest'" "h' = h1" "err = err2" by auto
      from Cons.prems(1) b have fresh: "param \<notin> set (map (\<lambda>b. fst (snd b)) rest)"
        and dist: "distinct (map (\<lambda>b. fst (snd b)) rest)" by auto
      from Cons.prems(2) b Inr have st: "steady L obj var"
        by (simp add: steady_binding_def)
      have st_rest: "\<forall>b \<in> set rest. steady_binding L (store h param obj') b"
      proof
        fix c assume c: "c \<in> set rest"
        with fresh have "fst (snd c) \<noteq> param" by auto
        with Cons.prems(2) c show "steady_binding L (store h param obj') c"
          by (simp add: steady_binding_def deref_store_other)
      qed
      from inner_frame [OF run] fresh
      have "deref h1 param = deref (store h param obj') param" by blast
      with Inr have here: "deref h1 param = Inr obj'" by (simp add: deref_store_same)
      from steady_fix [OF st] inr r
      have stays: "updateValue_which L obj' var' = Inr (obj', var', [])" by simp
      from Cons.IH [OF dist st_rest run] have "quiet_inner L h1 rest' err2" .
      with here stays res show ?thesis by simp
    qed
  qed
qed

lemma quiet_outer_run:
  "quiet_outer L h groups err \<Longrightarrow> updateParameters_outer L groups h = (groups, h, [], err)"
proof (induction groups)
  case Nil
  then show ?case by simp
next
  case (Cons g groups)
  obtain grp inner where g: "g = (grp, inner)" by (cases g)
  from Cons show ?case
    by (auto simp: g dest!: quiet_inner_run)
qed

lemma outer_frame:
  "updateParameters_outer L groups h = (groups', h', evs, err) \<Longrightarrow>
     (\<forall>q. q \<notin> set (map (\<lambda>b. fst (snd b)) (concat (map snd groups))) \<longrightarrow> deref h' q = deref h q)"
proof (induction groups arbitrary: h groups' h' evs err)
  case Nil
  then show ?case by simp
next
  case (Cons g groups)
  obtain grp inner where g: "g = (grp, inner)" by (cases g)
  obtain inner' h1 evs1 err1 where
    run1: "updateParameters_inner L inner h = (inner', h1, evs1, err1)"
    by (cases "updateParameters_inner L inner h")
  note f1 = inner_frame [OF run1, THEN conjunct2]
  show ?case
  proof (cases err1)
    case (Some e)
    with Cons.prems g run1 have "h' = h1" by auto
    with f1 g show ?thesis by auto
  next
    case None
    obtain groups2 h2 evs2 err2 where
      run2: "updateParameters_outer L groups h1 = (groups2, h2, evs2, err2)"
      by (cases "updateParameters_outer L groups h1")
    with Cons.prems g run1 None have "h' = h2" by auto
    with Cons.IH [OF run2] f1 g show ?thesis by auto
  qed
qed

lemma first_run_quiet_outer:
  assumes "distinct (map (\<lambda>b. fst (snd b)) (concat (map snd groups)))"
    and "\<forall>b \<in> set (concat (map snd groups)). steady_binding L h b"
    and "updateParameters_outer L groups h = (groups', h', evs, err)"
  shows "quiet_outer L h' groups' err"
  using assms
proof (induction groups arbitrary: h groups' h' evs err)
  case Nil
  then show ?case by simp
next
  case (Cons g groups)
  obtain grp inner where g: "g = (grp, inner)" by (cases g)
  obtain inner' h1 evs1 err1 where
    run1: "updateParameters_inner L inner h = (inner', h1, evs1, err1)"
    by (cases "updateParameters_inner L inner h")
  from Cons.prems(1) g have d1: "distinct (map (\<lambda>b. fst (snd b)) inner)"
    and d2: "distinct (map (\<lambda>b. fst (snd b)) (concat (map snd groups)))"
    and apart: "set (map (\<lambda>b. fst (snd b)) inner)
                  \<inter> set (map (\<lambda>b. fst (snd b)) (concat (map snd groups))) = {}"
    by auto
  from Cons.prems(2) g have s1: "\<forall>b \<in> set inner. steady_binding L h b" by auto
  from first_run_quiet_inner [OF d1 s1 run1] have q1: "quiet_inner L h1 inner' err1" .
  note f1 = inner_frame [OF run1]
  show ?case
  proof (cases err1)
    case (Some e)
    with Cons.prems(3) g run1 have "groups' = (grp, inner') # groups" "h' = h1" "err = Some e"
      by auto
    with q1 Some show ?thesis by simp
  next
    case None
    obtain groups2 h2 evs2 err2 where
      run2: "updateParameters_outer L groups h1 = (groups2, h2, evs2, err2)"
      by (cases "updateParameters_outer L groups h1")
    with Cons.prems(3) g run1 None
    have res: "groups' = (grp, inner') # groups2" "h' = h2" "err = err2" by auto
    have s2: "\<forall>b \<in> set (concat (map snd groups)). steady_binding L h1 b"
    proof
      fix c assume c: "c \<in> set (concat (map snd groups))"
      with apart have "fst (snd c) \<notin> set (map (\<lambda>b. fst (snd b)) inner)" by auto
      with f1 have "deref h1 (fst (snd c)) = deref h (fst (snd c))" by blast
      moreover from Cons.prems(2) g c have "steady_binding L h c" by auto
      ultimately show "steady_binding L h1 c" by (simp add: steady_binding_def)
    qed
    from Cons.IH [OF d2 s2 run2] have q2: "quiet_outer L h2 groups2 err2" .
    have "\<forall>q \<in> set (map (\<lambda>b. fst (snd b)) inner'). deref h2 q = deref h1 q"
    proof
      fix q assume "q \<in> set (map (\<lambda>b. fst (snd b)) inner')"
      with f1 have "q \<in> set (map (\<lambda>b. fst (snd b)) inner)" by simp
      with apart have "q \<notin> set (map (\<lambda>b. fst (snd b)) (concat (map snd groups)))" by auto
      with outer_frame [OF run2] show "deref h2 q = deref h1 q" by blast
    qed
    from quiet_inner_cong [OF this] q1 None have "quiet_inner L h2 inner' None" by simp
    with q2 res show ?thesis by simp
  qed
qed

text \<open>
  Where the values in play compare equal to themselves and the text written for a
  value converts back to it, and no two bindings share a parameter, the pass after
  a pass leaves the state as it is, the trace included, and ends as the first one
  did, by returning or with the same exception. The library of \<^verbatim>\<open>bool\<close> and \<^verbatim>\<open>int\<close> is
  such a library (\<open>steady_integral_library\<close> below); that of \<^verbatim>\<open>float\<close> and \<^verbatim>\<open>double\<close>
  is not.
\<close>

lemma updateParameters_twice:
  assumes "unshared w" and "steady_world L w"
  shows "(updateParameters L w = Inr w1 \<longrightarrow> updateParameters L w1 = Inr w1)
     \<and> (updateParameters L w = Inl (e, w1) \<longrightarrow> updateParameters L w1 = Inl (e, w1))"
proof -
  obtain pairs h evs err where
    run: "updateParameters_outer L (pangolinParams w) (heap w) = (pairs, h, evs, err)"
    by (cases "updateParameters_outer L (pangolinParams w) (heap w)")
  from assms have d: "distinct (map (\<lambda>b. fst (snd b)) (concat (map snd (pangolinParams w))))"
    and s: "\<forall>b \<in> set (concat (map snd (pangolinParams w))). steady_binding L (heap w) b"
    by (simp_all add: unshared_def steady_world_def bindings_def list_all_iff)
  from quiet_outer_run [OF first_run_quiet_outer [OF d s run]]
  have again: "updateParameters_outer L pairs h = (pairs, h, [], err)" .
  let ?w' = "w\<lparr> heap := h, pangolinParams := pairs, trace := trace w @ evs \<rparr>"
  from again have "updateParameters L ?w' = (case err of None \<Rightarrow> Inr ?w' | Some e \<Rightarrow> Inl (e, ?w'))"
    by (simp add: updateParameters_def Let_def)
  moreover from run have "updateParameters L w = (case err of None \<Rightarrow> Inr ?w' | Some e \<Rightarrow> Inl (e, ?w'))"
    by (simp add: updateParameters_def Let_def)
  ultimately show ?thesis
    by (cases err) auto
qed

lemma updateValue_which_malformed:
  assumes "getCategory obj = TEXTINPUT" and "\<not> converts L obj s"
  shows "updateValue_which L obj (Var_std_string s) = Inl bad_lexical_cast"
  using assms
  by (cases obj) (simp_all add: updateValue_on_def updateValue_Var_string)

lemma inner_malformed_head:
  assumes "deref h param = Inr obj" and "getCategory obj = TEXTINPUT" and "\<not> converts L obj s"
  shows "updateParameters_inner L ((name, param, Var_std_string s) # rest) h
           = ((name, param, Var_std_string s) # rest, h, [], Some bad_lexical_cast)"
  using assms by (simp add: updateValue_which_malformed)

lemma inner_malformed:
  assumes "distinct (map (\<lambda>b. fst (snd b)) es)"
    and "(name, param, Var_std_string s) \<in> set es"
    and "deref h param = Inr obj" and "getCategory obj = TEXTINPUT" and "\<not> converts L obj s"
    and "updateParameters_inner L es h = (es', h', evs, err)"
  shows "err \<noteq> None \<and> deref h' param = Inr obj \<and> (name, param, Var_std_string s) \<in> set es'"
  using assms(1,2,3,6)
proof (induction es arbitrary: h es' h' evs err)
  case Nil
  then show ?case by simp
next
  case (Cons b rest)
  show ?case
  proof (cases "b = (name, param, Var_std_string s)")
    case True
    with Cons.prems(4) inner_malformed_head [OF Cons.prems(3) assms(4,5), of name rest]
    have "es' = b # rest" "h' = h" "err = Some bad_lexical_cast" by auto
    with True Cons.prems(3) show ?thesis by simp
  next
    case False
    obtain n2 q v2 where b: "b = (n2, q, v2)" by (cases b)
    from False Cons.prems(2) have mem: "(name, param, Var_std_string s) \<in> set rest" by simp
    with Cons.prems(1) b have neq: "param \<noteq> q" and dist: "distinct (map (\<lambda>b. fst (snd b)) rest)"
      by force+
    show ?thesis
    proof (cases "deref h q")
      case (Inl e)
      with Cons.prems b mem show ?thesis by auto
    next
      case (Inr obj2)
      show ?thesis
      proof (cases "updateValue_which L obj2 v2")
        case (Inl e)
        with Cons.prems b mem Inr show ?thesis by auto
      next
        case inr: (Inr r)
        obtain obj' var' evs1 where r: "r = (obj', var', evs1)" by (cases r)
        obtain rest' h1 evs2 err2 where
          run: "updateParameters_inner L rest (store h q obj') = (rest', h1, evs2, err2)"
          by (cases "updateParameters_inner L rest (store h q obj')")
        from Cons.prems(4) b Inr inr r run
        have res: "es' = (n2, q, var') # rest'" "h' = h1" "err = err2" by auto
        from neq Cons.prems(3) have "deref (store h q obj') param = Inr obj"
          by (simp add: deref_store_other)
        from Cons.IH [OF dist mem this run] res show ?thesis by simp
      qed
    qed
  qed
qed

lemma outer_malformed:
  assumes "distinct (map (\<lambda>b. fst (snd b)) (concat (map snd groups)))"
    and "(name, param, Var_std_string s) \<in> set (concat (map snd groups))"
    and "deref h param = Inr obj" and "getCategory obj = TEXTINPUT" and "\<not> converts L obj s"
    and "updateParameters_outer L groups h = (groups', h', evs, err)"
  shows "err \<noteq> None \<and> deref h' param = Inr obj
     \<and> (name, param, Var_std_string s) \<in> set (concat (map snd groups'))"
  using assms(1,2,3,6)
proof (induction groups arbitrary: h groups' h' evs err)
  case Nil
  then show ?case by simp
next
  case (Cons g groups)
  obtain grp inner where g: "g = (grp, inner)" by (cases g)
  obtain inner' h1 evs1 err1 where
    run1: "updateParameters_inner L inner h = (inner', h1, evs1, err1)"
    by (cases "updateParameters_inner L inner h")
  from Cons.prems(1) g have d1: "distinct (map (\<lambda>b. fst (snd b)) inner)"
    and d2: "distinct (map (\<lambda>b. fst (snd b)) (concat (map snd groups)))"
    and apart: "set (map (\<lambda>b. fst (snd b)) inner)
                  \<inter> set (map (\<lambda>b. fst (snd b)) (concat (map snd groups))) = {}"
    by auto
  show ?case
  proof (cases "(name, param, Var_std_string s) \<in> set inner")
    case True
    from inner_malformed [OF d1 True Cons.prems(3) assms(4,5) run1]
    obtain e where e: "err1 = Some e" and keep: "deref h1 param = Inr obj"
      "(name, param, Var_std_string s) \<in> set inner'" by auto
    with Cons.prems(4) g run1 have "groups' = (grp, inner') # groups" "h' = h1" "err = Some e"
      by auto
    with keep show ?thesis by simp
  next
    case False
    with Cons.prems(2) g have mem: "(name, param, Var_std_string s) \<in> set (concat (map snd groups))"
      by simp
    then have "param \<in> set (map (\<lambda>b. fst (snd b)) (concat (map snd groups)))" by force
    with apart have "param \<notin> set (map (\<lambda>b. fst (snd b)) inner)" by auto
    with inner_frame [OF run1] Cons.prems(3) have here: "deref h1 param = Inr obj" by simp
    show ?thesis
    proof (cases err1)
      case (Some e)
      with Cons.prems(4) g run1 have "groups' = (grp, inner') # groups" "h' = h1" "err = Some e"
        by auto
      with here mem show ?thesis by simp
    next
      case None
      obtain groups2 h2 evs2 err2 where
        run2: "updateParameters_outer L groups h1 = (groups2, h2, evs2, err2)"
        by (cases "updateParameters_outer L groups h1")
      with Cons.prems(4) g run1 None
      have res: "groups' = (grp, inner') # groups2" "h' = h2" "err = err2" by auto
      from Cons.IH [OF d2 mem here run2] res show ?thesis by simp
    qed
  qed
qed

text \<open>
  C2, as the code has it. When a binding of a \<^verbatim>\<open>TEXTINPUT\<close> parameter holds text that
  does not convert, a pass does not return: the inner loop, at that binding, throws
  \<^verbatim>\<open>bad_lexical_cast\<close> with the entries, the heap and the trace as they are, and no
  pass gets beyond it. In the state the pass leaves, the parameter and the text of
  its control are what they were.
\<close>

theorem updateParameters_malformed_text:
  assumes "unshared w"
    and "(name, param, Var_std_string s) \<in> set (bindings w)"
    and "deref (heap w) param = Inr obj"
    and "getCategory obj = TEXTINPUT"
    and "\<not> converts L obj s"
  shows "(\<exists>e w'. updateParameters L w = Inl (e, w')
            \<and> deref (heap w') param = Inr obj
            \<and> (name, param, Var_std_string s) \<in> set (bindings w'))
     \<and> (\<forall>rest h. deref h param = Inr obj \<longrightarrow>
           updateParameters_inner L ((name, param, Var_std_string s) # rest) h
             = ((name, param, Var_std_string s) # rest, h, [], Some bad_lexical_cast))"
proof -
  obtain pairs h evs err where
    run: "updateParameters_outer L (pangolinParams w) (heap w) = (pairs, h, evs, err)"
    by (cases "updateParameters_outer L (pangolinParams w) (heap w)")
  from assms(1) have d: "distinct (map (\<lambda>b. fst (snd b)) (concat (map snd (pangolinParams w))))"
    by (simp add: unshared_def bindings_def)
  from assms(2) have m: "(name, param, Var_std_string s) \<in> set (concat (map snd (pangolinParams w)))"
    by (simp add: bindings_def)
  from outer_malformed [OF d m assms(3,4,5) run]
  obtain e where "err = Some e" and "deref h param = Inr obj"
    and "(name, param, Var_std_string s) \<in> set (concat (map snd pairs))" by auto
  with run have "\<exists>e w'. updateParameters L w = Inl (e, w')
            \<and> deref (heap w') param = Inr obj
            \<and> (name, param, Var_std_string s) \<in> set (bindings w')"
    by (simp add: updateParameters_def Let_def bindings_def)
  with inner_malformed_head [OF _ assms(4,5)] show ?thesis by blast
qed

text \<open>
  A pass that returns has called \<^verbatim>\<open>updateValue\<close> once for each binding, on the object
  and the control as they were before the pass, and has left what that call gave
  back: what is proved of one call of \<^verbatim>\<open>updateValue\<close> holds of the pass, binding by
  binding.
\<close>

lemma inner_bindingwise:
  assumes "distinct (map (\<lambda>b. fst (snd b)) es)"
    and "(name, param, var) \<in> set es"
    and "deref h param = Inr obj"
    and "updateParameters_inner L es h = (es', h', evs, None)"
  shows "\<exists>obj' var' evs1. updateValue_which L obj var = Inr (obj', var', evs1)
           \<and> deref h' param = Inr obj' \<and> (name, param, var') \<in> set es'"
  using assms
proof (induction es arbitrary: h es' h' evs)
  case Nil
  then show ?case by simp
next
  case (Cons b rest)
  obtain n2 q v2 where b: "b = (n2, q, v2)" by (cases b)
  from Cons.prems(4) b obtain obj2 where live: "deref h q = Inr obj2"
    by (cases "deref h q") auto
  from Cons.prems(4) b live obtain obj2' v2' evs1 where
    step: "updateValue_which L obj2 v2 = Inr (obj2', v2', evs1)"
    by (cases "updateValue_which L obj2 v2") auto
  obtain rest' h1 evs2 err2 where
    run: "updateParameters_inner L rest (store h q obj2') = (rest', h1, evs2, err2)"
    by (cases "updateParameters_inner L rest (store h q obj2')")
  from Cons.prems(4) b live step run
  have res: "es' = (n2, q, v2') # rest'" "h' = h1" "err2 = None" by auto
  from Cons.prems(1) b have fresh: "q \<notin> set (map (\<lambda>b. fst (snd b)) rest)"
    and dist: "distinct (map (\<lambda>b. fst (snd b)) rest)" by auto
  show ?case
  proof (cases "b = (name, param, var)")
    case True
    with b live Cons.prems(3) have same: "n2 = name" "q = param" "v2 = var" "obj2 = obj" by auto
    from inner_frame [OF run] fresh have "deref h1 q = deref (store h q obj2') q" by blast
    with live have "deref h1 q = Inr obj2'" by (simp add: deref_store_same)
    with step same res show ?thesis by auto
  next
    case False
    with Cons.prems(2) have mem: "(name, param, var) \<in> set rest" by simp
    with fresh have "param \<noteq> q" by force
    with Cons.prems(3) have "deref (store h q obj2') param = Inr obj"
      by (simp add: deref_store_other)
    from Cons.IH [OF dist mem this] run res show ?thesis by auto
  qed
qed

lemma outer_bindingwise:
  assumes "distinct (map (\<lambda>b. fst (snd b)) (concat (map snd groups)))"
    and "(name, param, var) \<in> set (concat (map snd groups))"
    and "deref h param = Inr obj"
    and "updateParameters_outer L groups h = (groups', h', evs, None)"
  shows "\<exists>obj' var' evs1. updateValue_which L obj var = Inr (obj', var', evs1)
           \<and> deref h' param = Inr obj'
           \<and> (name, param, var') \<in> set (concat (map snd groups'))"
  using assms
proof (induction groups arbitrary: h groups' h' evs)
  case Nil
  then show ?case by simp
next
  case (Cons g groups)
  obtain grp inner where g: "g = (grp, inner)" by (cases g)
  obtain inner' h1 evs1 err1 where
    run1: "updateParameters_inner L inner h = (inner', h1, evs1, err1)"
    by (cases "updateParameters_inner L inner h")
  from Cons.prems(4) g run1 have ok1: "err1 = None" by (cases err1) auto
  obtain groups2 h2 evs2 err2 where
    run2: "updateParameters_outer L groups h1 = (groups2, h2, evs2, err2)"
    by (cases "updateParameters_outer L groups h1")
  from Cons.prems(4) g run1 ok1 run2
  have res: "groups' = (grp, inner') # groups2" "h' = h2" "err2 = None" by auto
  from Cons.prems(1) g have d1: "distinct (map (\<lambda>b. fst (snd b)) inner)"
    and d2: "distinct (map (\<lambda>b. fst (snd b)) (concat (map snd groups)))"
    and apart: "set (map (\<lambda>b. fst (snd b)) inner)
                  \<inter> set (map (\<lambda>b. fst (snd b)) (concat (map snd groups))) = {}"
    by auto
  show ?case
  proof (cases "(name, param, var) \<in> set inner")
    case True
    from inner_bindingwise [OF d1 True Cons.prems(3) run1 [unfolded ok1]]
    obtain obj' var' evs3 where
      st: "updateValue_which L obj var = Inr (obj', var', evs3)"
      and here: "deref h1 param = Inr obj'" and mem: "(name, param, var') \<in> set inner'"
      by blast
    from True have "param \<in> set (map (\<lambda>b. fst (snd b)) inner)" by force
    with apart have "param \<notin> set (map (\<lambda>b. fst (snd b)) (concat (map snd groups)))" by auto
    with outer_frame [OF run2] here have "deref h2 param = Inr obj'" by simp
    with st mem res show ?thesis by auto
  next
    case False
    with Cons.prems(2) g have mem: "(name, param, var) \<in> set (concat (map snd groups))" by simp
    then have "param \<in> set (map (\<lambda>b. fst (snd b)) (concat (map snd groups)))" by force
    with apart have "param \<notin> set (map (\<lambda>b. fst (snd b)) inner)" by auto
    with inner_frame [OF run1] Cons.prems(3) have "deref h1 param = Inr obj" by simp
    from Cons.IH [OF d2 mem this] run2 res show ?thesis by auto
  qed
qed

lemma updateParameters_bindingwise:
  assumes "unshared w"
    and "(name, param, var) \<in> set (bindings w)"
    and "deref (heap w) param = Inr obj"
    and "updateParameters L w = Inr w'"
  shows "\<exists>obj' var' evs. updateValue_which L obj var = Inr (obj', var', evs)
           \<and> deref (heap w') param = Inr obj'
           \<and> (name, param, var') \<in> set (bindings w')"
proof -
  obtain pairs h evs err where
    run: "updateParameters_outer L (pangolinParams w) (heap w) = (pairs, h, evs, err)"
    by (cases "updateParameters_outer L (pangolinParams w) (heap w)")
  with assms(4) have ok: "err = None" and w': "heap w' = h" "pangolinParams w' = pairs"
    by (auto simp: updateParameters_def Let_def split: option.splits)
  from assms(1) have d: "distinct (map (\<lambda>b. fst (snd b)) (concat (map snd (pangolinParams w))))"
    by (simp add: unshared_def bindings_def)
  from assms(2) have m: "(name, param, var) \<in> set (concat (map snd (pangolinParams w)))"
    by (simp add: bindings_def)
  from outer_bindingwise [OF d m assms(3) run [unfolded ok]] w' show ?thesis
    by (simp add: bindings_def)
qed

text \<open>
  Two calls of \<^verbatim>\<open>updateValue\<close> in a row on a \<^verbatim>\<open>TEXTINPUT\<close> parameter with \<^verbatim>\<open>mChangedInCode\<close>
  set, when the text written for its value converts to a value that differs from
  it: the first pushes, the second pulls, calls the callback and sets
  \<^verbatim>\<open>mChangedThroughPangolin\<close>.
\<close>

lemma lossy_T_two_calls:
  assumes "lossy_T ops p" and "updateValue ops p c = Inr (p1, c1, evs1)"
  shows "\<exists>p2. updateValue ops p1 c1 = Inr (p2, c1, value_message p # onUpdate p)
           \<and> mChangedThroughPangolin p2"
proof (cases c)
  case (Var_T shown)
  with assms show ?thesis by (simp add: lossy_T_def updateValue_Var_T)
next
  case (Var_string s)
  with assms show ?thesis
    by (auto simp: lossy_T_def updateValue_Var_string onUpdate_def value_message_def
        split: option.splits)
qed

lemma updateValue_on_two_calls:
  assumes "\<And>c. as_T (of_pango_var new_Var c) = Some c"
    and "lossy_T ops p"
    and "updateValue_on ops obj_of new_Var p (as_T var) = Inr (obj1, var1, evs1)"
  shows "\<exists>p1 p2 evs2. obj1 = obj_of p1
           \<and> updateValue_on ops obj_of new_Var p1 (as_T var1) = Inr (obj_of p2, var1, evs2)
           \<and> set (onUpdate p) \<subseteq> set evs2 \<and> mChangedThroughPangolin p2"
proof (cases "as_T var")
  case None
  with assms(3) show ?thesis by (simp add: updateValue_on_def)
next
  case (Some c)
  with assms(3) obtain p1 c1 where
    u: "updateValue ops p c = Inr (p1, c1, evs1)" and o: "obj1 = obj_of p1"
    and v: "var1 = of_pango_var new_Var c1"
    by (auto simp: updateValue_on_def split: sum.splits)
  from lossy_T_two_calls [OF assms(2) u] obtain p2 where
    "updateValue ops p1 c1 = Inr (p2, c1, value_message p # onUpdate p)"
    and "mChangedThroughPangolin p2" by blast
  with o v assms(1) show ?thesis
    by (intro exI [of _ p1] exI [of _ p2] exI [of _ "value_message p # onUpdate p"])
      (auto simp: updateValue_on_def)
qed

lemma lossy_two_calls:
  assumes "lossy L obj" and "updateValue_which L obj var = Inr (obj1, var1, evs1)"
  shows "\<exists>obj2 evs2. updateValue_which L obj1 var1 = Inr (obj2, var1, evs2)
           \<and> set (onUpdate_of obj) \<subseteq> set evs2 \<and> changedThroughPangolin obj2"
proof (cases obj)
  case (Parameter_bool p)
  with assms have "lossy_T (bool_ops L) p"
    and "updateValue_on (bool_ops L) Parameter_bool Var_bool p (as_bool var) = Inr (obj1, var1, evs1)"
    by simp_all
  from updateValue_on_two_calls [OF as_of_pango_var(1) this] Parameter_bool show ?thesis by auto
next
  case (Parameter_int p)
  with assms have "lossy_T (int_ops L) p"
    and "updateValue_on (int_ops L) Parameter_int Var_int p (as_int var) = Inr (obj1, var1, evs1)"
    by simp_all
  from updateValue_on_two_calls [OF as_of_pango_var(2) this] Parameter_int show ?thesis by auto
next
  case (Parameter_float p)
  with assms have "lossy_T (float_ops L) p"
    and "updateValue_on (float_ops L) Parameter_float Var_float p (as_float var) = Inr (obj1, var1, evs1)"
    by simp_all
  from updateValue_on_two_calls [OF as_of_pango_var(3) this] Parameter_float show ?thesis by auto
next
  case (Parameter_double p)
  with assms have "lossy_T (double_ops L) p"
    and "updateValue_on (double_ops L) Parameter_double Var_double p (as_double var) = Inr (obj1, var1, evs1)"
    by simp_all
  from updateValue_on_two_calls [OF as_of_pango_var(4) this] Parameter_double show ?thesis by auto
qed

lemma inner_pass_events:
  assumes "distinct (map (\<lambda>b. fst (snd b)) es)"
    and "(name, param, var) \<in> set es"
    and "deref h param = Inr obj"
    and "updateParameters_inner L es h = (es', h', evs, None)"
  shows "\<exists>obj' var' evs1. updateValue_which L obj var = Inr (obj', var', evs1)
           \<and> deref h' param = Inr obj' \<and> (name, param, var') \<in> set es'
           \<and> set evs1 \<subseteq> set evs"
  using assms
proof (induction es arbitrary: h es' h' evs)
  case Nil
  then show ?case by simp
next
  case (Cons b rest)
  obtain n2 q v2 where b: "b = (n2, q, v2)" by (cases b)
  from Cons.prems(4) b obtain obj2 where live: "deref h q = Inr obj2"
    by (cases "deref h q") auto
  from Cons.prems(4) b live obtain obj2' v2' evs1 where
    step: "updateValue_which L obj2 v2 = Inr (obj2', v2', evs1)"
    by (cases "updateValue_which L obj2 v2") auto
  obtain rest' h1 evs2 err2 where
    run: "updateParameters_inner L rest (store h q obj2') = (rest', h1, evs2, err2)"
    by (cases "updateParameters_inner L rest (store h q obj2')")
  from Cons.prems(4) b live step run
  have res: "es' = (n2, q, v2') # rest'" "h' = h1" "err2 = None" "evs = evs1 @ evs2" by auto
  from Cons.prems(1) b have fresh: "q \<notin> set (map (\<lambda>b. fst (snd b)) rest)"
    and dist: "distinct (map (\<lambda>b. fst (snd b)) rest)" by auto
  show ?case
  proof (cases "b = (name, param, var)")
    case True
    with b live Cons.prems(3) have same: "n2 = name" "q = param" "v2 = var" "obj2 = obj" by auto
    from inner_frame [OF run] fresh have "deref h1 q = deref (store h q obj2') q" by blast
    with live have "deref h1 q = Inr obj2'" by (simp add: deref_store_same)
    with step same res show ?thesis by auto
  next
    case False
    with Cons.prems(2) have mem: "(name, param, var) \<in> set rest" by simp
    with fresh have "param \<noteq> q" by force
    with Cons.prems(3) have "deref (store h q obj2') param = Inr obj"
      by (simp add: deref_store_other)
    from Cons.IH [OF dist mem this] run res show ?thesis by auto
  qed
qed

lemma outer_pointers:
  "updateParameters_outer L groups h = (groups', h', evs, err) \<Longrightarrow>
     map (\<lambda>b. fst (snd b)) (concat (map snd groups'))
       = map (\<lambda>b. fst (snd b)) (concat (map snd groups))"
proof (induction groups arbitrary: h groups' h' evs err)
  case Nil
  then show ?case by simp
next
  case (Cons g groups)
  obtain grp inner where g: "g = (grp, inner)" by (cases g)
  obtain inner' h1 evs1 err1 where
    run1: "updateParameters_inner L inner h = (inner', h1, evs1, err1)"
    by (cases "updateParameters_inner L inner h")
  note p1 = inner_frame [OF run1, THEN conjunct1]
  show ?case
  proof (cases err1)
    case (Some e)
    with Cons.prems g run1 have "groups' = (grp, inner') # groups" by auto
    with p1 g show ?thesis by simp
  next
    case None
    obtain groups2 h2 evs2 err2 where
      run2: "updateParameters_outer L groups h1 = (groups2, h2, evs2, err2)"
      by (cases "updateParameters_outer L groups h1")
    with Cons.prems g run1 None have "groups' = (grp, inner') # groups2" by auto
    with Cons.IH [OF run2] p1 g show ?thesis by simp
  qed
qed

lemma outer_pass_events:
  assumes "distinct (map (\<lambda>b. fst (snd b)) (concat (map snd groups)))"
    and "(name, param, var) \<in> set (concat (map snd groups))"
    and "deref h param = Inr obj"
    and "updateParameters_outer L groups h = (groups', h', evs, None)"
  shows "\<exists>obj' var' evs1. updateValue_which L obj var = Inr (obj', var', evs1)
           \<and> deref h' param = Inr obj'
           \<and> (name, param, var') \<in> set (concat (map snd groups'))
           \<and> set evs1 \<subseteq> set evs"
  using assms
proof (induction groups arbitrary: h groups' h' evs)
  case Nil
  then show ?case by simp
next
  case (Cons g groups)
  obtain grp inner where g: "g = (grp, inner)" by (cases g)
  obtain inner' h1 evs1 err1 where
    run1: "updateParameters_inner L inner h = (inner', h1, evs1, err1)"
    by (cases "updateParameters_inner L inner h")
  from Cons.prems(4) g run1 have ok1: "err1 = None" by (cases err1) auto
  obtain groups2 h2 evs2 err2 where
    run2: "updateParameters_outer L groups h1 = (groups2, h2, evs2, err2)"
    by (cases "updateParameters_outer L groups h1")
  from Cons.prems(4) g run1 ok1 run2
  have res: "groups' = (grp, inner') # groups2" "h' = h2" "err2 = None" "evs = evs1 @ evs2"
    by auto
  from Cons.prems(1) g have d1: "distinct (map (\<lambda>b. fst (snd b)) inner)"
    and d2: "distinct (map (\<lambda>b. fst (snd b)) (concat (map snd groups)))"
    and apart: "set (map (\<lambda>b. fst (snd b)) inner)
                  \<inter> set (map (\<lambda>b. fst (snd b)) (concat (map snd groups))) = {}"
    by auto
  show ?case
  proof (cases "(name, param, var) \<in> set inner")
    case True
    from inner_pass_events [OF d1 True Cons.prems(3) run1 [unfolded ok1]]
    obtain obj' var' evs3 where
      st: "updateValue_which L obj var = Inr (obj', var', evs3)"
      and here: "deref h1 param = Inr obj'" and mem: "(name, param, var') \<in> set inner'"
      and sub: "set evs3 \<subseteq> set evs1"
      by blast
    from True have "param \<in> set (map (\<lambda>b. fst (snd b)) inner)" by force
    with apart have "param \<notin> set (map (\<lambda>b. fst (snd b)) (concat (map snd groups)))" by auto
    with outer_frame [OF run2] here have "deref h2 param = Inr obj'" by simp
    with st mem sub res show ?thesis by auto
  next
    case False
    with Cons.prems(2) g have mem: "(name, param, var) \<in> set (concat (map snd groups))" by simp
    then have "param \<in> set (map (\<lambda>b. fst (snd b)) (concat (map snd groups)))" by force
    with apart have "param \<notin> set (map (\<lambda>b. fst (snd b)) inner)" by auto
    with inner_frame [OF run1] Cons.prems(3) have "deref h1 param = Inr obj" by simp
    from Cons.IH [OF d2 mem this] run2 res show ?thesis by auto
  qed
qed

lemma updateParameters_pass_events:
  assumes "unshared w"
    and "(name, param, var) \<in> set (bindings w)"
    and "deref (heap w) param = Inr obj"
    and "updateParameters L w = Inr w'"
  shows "\<exists>obj' var' evs1 evs. updateValue_which L obj var = Inr (obj', var', evs1)
           \<and> deref (heap w') param = Inr obj'
           \<and> (name, param, var') \<in> set (bindings w')
           \<and> trace w' = trace w @ evs \<and> set evs1 \<subseteq> set evs
           \<and> unshared w'"
proof -
  obtain pairs h evs err where
    run: "updateParameters_outer L (pangolinParams w) (heap w) = (pairs, h, evs, err)"
    by (cases "updateParameters_outer L (pangolinParams w) (heap w)")
  with assms(4) have ok: "err = None" and w': "heap w' = h" "pangolinParams w' = pairs"
    "trace w' = trace w @ evs"
    by (auto simp: updateParameters_def Let_def split: option.splits)
  from assms(1) have d: "distinct (map (\<lambda>b. fst (snd b)) (concat (map snd (pangolinParams w))))"
    by (simp add: unshared_def bindings_def)
  from assms(2) have m: "(name, param, var) \<in> set (concat (map snd (pangolinParams w)))"
    by (simp add: bindings_def)
  from outer_pointers [OF run] d w' have "unshared w'"
    by (simp add: unshared_def bindings_def)
  with outer_pass_events [OF d m assms(3) run [unfolded ok]] w' show ?thesis
    by (simp add: bindings_def)
qed

text \<open>
  C5 fails in the code. When a binding holds a \<^verbatim>\<open>TEXTINPUT\<close> parameter whose value has
  been set in code and the text that \<^verbatim>\<open>std::to_string\<close> writes for the value converts
  to a value that differs from it (six decimals of a \<^verbatim>\<open>float\<close> or \<^verbatim>\<open>double\<close>), two
  passes that return, with nothing changed in between, do not leave the same
  state: the second pass calls the parameter's callback again and sets
  \<^verbatim>\<open>mChangedThroughPangolin\<close>.
\<close>

theorem updateParameters_second_pass_changes:
  assumes "unshared w"
    and "(name, param, var) \<in> set (bindings w)"
    and "deref (heap w) param = Inr obj"
    and "lossy L obj"
    and "updateParameters L w = Inr w1"
    and "updateParameters L w1 = Inr w2"
  shows "w2 \<noteq> w1
     \<and> (\<exists>evs. trace w2 = trace w1 @ evs \<and> set (onUpdate_of obj) \<subseteq> set evs)
     \<and> (\<exists>obj2. deref (heap w2) param = Inr obj2 \<and> changedThroughPangolin obj2)"
proof -
  from updateParameters_pass_events [OF assms(1,2,3,5)]
  obtain obj1 var1 evs1 where
    first: "updateValue_which L obj var = Inr (obj1, var1, evs1)"
    and h1: "deref (heap w1) param = Inr obj1"
    and b1: "(name, param, var1) \<in> set (bindings w1)"
    and u1: "unshared w1" by blast
  from lossy_two_calls [OF assms(4) first]
  obtain obj2 evs2 where
    second: "updateValue_which L obj1 var1 = Inr (obj2, var1, evs2)"
    and ev: "set (onUpdate_of obj) \<subseteq> set evs2" and fl: "changedThroughPangolin obj2" by blast
  from updateParameters_pass_events [OF u1 b1 h1 assms(6)] second
  obtain evs where h2: "deref (heap w2) param = Inr obj2"
    and t: "trace w2 = trace w1 @ evs" and sub: "set evs2 \<subseteq> set evs" by auto
  have "onUpdate_of obj \<noteq> []" by (cases obj) (simp_all add: onUpdate_def)
  with ev sub have "evs \<noteq> []" by auto
  with t have "w2 \<noteq> w1" by auto
  with t ev sub h2 fl show ?thesis by blast
qed

theorem updateParameters_second_pass_changes_witness:
  "unshared world_scale
   \<and> (''scale'', Addr 0, Var_std_string ''0.500000'') \<in> set (bindings world_scale)
   \<and> deref (heap world_scale) (Addr 0)
       = Inr (Parameter_double (fst (setValue (Tenmillionths 1234567) scale_parameter)))
   \<and> lossy coarse_library
        (Parameter_double (fst (setValue (Tenmillionths 1234567) scale_parameter)))
   \<and> updateParameters coarse_library world_scale
       = Inr (state_of (updateParameters coarse_library world_scale))
   \<and> updateParameters coarse_library (state_of (updateParameters coarse_library world_scale))
       = Inr (state_of (updateParameters coarse_library
                (state_of (updateParameters coarse_library world_scale))))
   \<and> state_of (updateParameters coarse_library
                (state_of (updateParameters coarse_library world_scale)))
       \<noteq> state_of (updateParameters coarse_library world_scale)
   \<and> heap (state_of (updateParameters coarse_library world_scale))
       = [Some (Parameter_double
            (scale_parameter\<lparr> mValue := Tenmillionths 1234567, mChangedInCode := False \<rparr>))]
   \<and> heap (state_of (updateParameters coarse_library
                (state_of (updateParameters coarse_library world_scale))))
       = [Some (Parameter_double
            (scale_parameter\<lparr> mValue := Tenmillionths 1234570, mChangedInCode := False,
               mChangedThroughPangolin := True \<rparr>))]"
proof -
  let ?obj = "Parameter_double (fst (setValue (Tenmillionths 1234567) scale_parameter))
                :: (coarse, coarse) ParameterBase"
  let ?w1 = "state_of (updateParameters coarse_library world_scale)"
  let ?w2 = "state_of (updateParameters coarse_library ?w1)"
  have h1: "unshared world_scale" by code_simp
  have h2: "(''scale'', Addr 0, Var_std_string ''0.500000'') \<in> set (bindings world_scale)"
    by code_simp
  have h3: "deref (heap world_scale) (Addr 0) = Inr ?obj" by code_simp
  have h4: "lossy coarse_library ?obj" by code_simp
  have h5: "updateParameters coarse_library world_scale = Inr ?w1" by code_simp
  have h6: "updateParameters coarse_library ?w1 = Inr ?w2" by code_simp
  have v1: "heap ?w1
       = [Some (Parameter_double
            (scale_parameter\<lparr> mValue := Tenmillionths 1234567, mChangedInCode := False \<rparr>))]"
    by code_simp
  have v2: "heap ?w2
       = [Some (Parameter_double
            (scale_parameter\<lparr> mValue := Tenmillionths 1234570, mChangedInCode := False,
               mChangedThroughPangolin := True \<rparr>))]"
    by code_simp
  from updateParameters_second_pass_changes [OF h1 h2 h3 h4 h5 h6, THEN conjunct1]
  have "?w2 \<noteq> ?w1" .
  with h1 h2 h3 h4 h5 h6 v1 v2 show ?thesis by blast
qed

section \<open>The order of a group\<close>

lemma map_find_snd_map_at:
  "g \<noteq> g' \<Longrightarrow> map_find g (snd (map_at g' d m)) = map_find g m"
  by (simp add: map_at_def map_find_map_assign split: option.splits)

lemma fst_map_at_assign:
  "fst (map_at g [] (map_assign g' x (snd (map_at g' [] m))))
     = (if g = g' then x else fst (map_at g [] m))"
  by (auto simp: map_at_def map_find_map_assign split: option.splits)

lemma visiting_order_construct:
  "visiting_order g (snd (construct obj w)) =
     (if getGroup obj = g
      then map fst (map_assign (getName obj) (Addr (length (heap w)))
                      (fst (map_at g [] (parametersDict w))))
      else visiting_order g w)"
  by (simp add: visiting_order_def construct_def Let_def split_def fst_map_at_assign)

lemma visiting_order_construct_all:
  "sorted_wrt (<) (visiting_order g w) \<Longrightarrow>
     sorted_wrt (<) (visiting_order g (construct_all objs w))
     \<and> set (visiting_order g (construct_all objs w))
         = set (visiting_order g w) \<union> set (map getName (filter (\<lambda>obj. getGroup obj = g) objs))"
proof (induction objs arbitrary: w)
  case Nil
  then show ?case by simp
next
  case (Cons obj objs)
  have s: "sorted_wrt (<) (visiting_order g (snd (construct obj w)))"
    using Cons.prems sorted_map_assign [of "fst (map_at g [] (parametersDict w))"]
    by (simp add: visiting_order_construct) (simp add: visiting_order_def)
  have k: "set (visiting_order g (snd (construct obj w)))
      = set (visiting_order g w) \<union> (if getGroup obj = g then {getName obj} else {})"
    by (simp add: visiting_order_construct keys_map_assign) (simp add: visiting_order_def)
  from Cons.IH [OF s] k show ?case by auto
qed

text \<open>
  C9, as the code has it. However many parameters are constructed and in whatever
  order, the loop of \<^verbatim>\<open>createPangolinEntries\<close> over a group visits the names
  registered in that group in ascending order of \<^verbatim>\<open>std::string\<close>, each once.
\<close>

theorem visiting_order_sorted:
  "visiting_order g (construct_all objs initial_world)
     = sorted_list_of_set (set (map getName (filter (\<lambda>obj. getGroup obj = g) objs)))"
proof -
  have "sorted_wrt (<) (visiting_order g (initial_world :: ('a, 'b) world))"
    and e: "set (visiting_order g (initial_world :: ('a, 'b) world)) = {}"
    by (simp_all add: visiting_order_def initial_world_def map_at_def map_find_def)
  from visiting_order_construct_all [OF this(1), of objs] e
  have "sorted_wrt (<) (visiting_order g (construct_all objs initial_world))"
    and "set (visiting_order g (construct_all objs initial_world))
         = set (map getName (filter (\<lambda>obj. getGroup obj = g) objs))"
    by simp_all
  then show ?thesis
    by (metis sorted_list_of_set.idem_if_sorted_distinct strict_sorted_iff)
qed

section \<open>The library of \<^verbatim>\<open>bool\<close> and \<^verbatim>\<open>int\<close> meets the conditions\<close>

lemma of_char_digit_char: "d < 10 \<Longrightarrow> of_char (digit_char d) = (48 + d :: nat)"
  by (simp add: digit_char_def)

lemma digit_value_digit_char: "d < 10 \<Longrightarrow> digit_value (digit_char d) = Some d"
  by (simp add: digit_value_def of_char_digit_char)

lemma digit_char_not_sign:
  assumes "d < 10"
  shows "digit_char d \<noteq> CHR ''-''" and "digit_char d \<noteq> CHR ''+''"
proof -
  from of_char_digit_char [OF assms]
  have "of_char (digit_char d) \<noteq> (45::nat)" and "of_char (digit_char d) \<noteq> (43::nat)"
    by simp_all
  then show "digit_char d \<noteq> CHR ''-''" and "digit_char d \<noteq> CHR ''+''" by auto
qed

lemma parse_digits_append:
  "parse_digits (xs @ ys) acc =
     (case parse_digits xs acc of None \<Rightarrow> None | Some a \<Rightarrow> parse_digits ys a)"
  by (induction xs arbitrary: acc) (auto split: option.splits)

lemma parse_digits_digits: "parse_digits (digits n) 0 = Some n"
proof (induction n rule: digits.induct)
  case (1 n)
  show ?case
  proof (cases "n < 10")
    case True
    then show ?thesis by (simp add: digits.simps [of n] digit_value_digit_char)
  next
    case False
    with 1 have "parse_digits (digits (n div 10)) 0 = Some (n div 10)" by simp
    with False show ?thesis
      by (simp add: digits.simps [of n] parse_digits_append digit_value_digit_char)
  qed
qed

lemma digits_first: "\<exists>d cs. d < 10 \<and> digits n = digit_char d # cs"
proof (induction n rule: digits.induct)
  case (1 n)
  show ?case
  proof (cases "n < 10")
    case True
    then show ?thesis by (auto simp: digits.simps [of n])
  next
    case False
    with 1 obtain d cs where "d < 10" "digits (n div 10) = digit_char d # cs" by auto
    with False show ?thesis by (auto simp: digits.simps [of n])
  qed
qed

lemma lexical_cast_int_to_string_int:
  assumes "int_in_range i"
  shows "lexical_cast_int (to_string_int i) = Some i"
proof (cases "i < 0")
  case True
  obtain d cs where "digits (nat (- i)) = digit_char d # cs" using digits_first by blast
  then have "digits (nat (- i)) \<noteq> []" by simp
  with True assms show ?thesis
    by (simp add: to_string_int_def parse_unsigned_def parse_digits_digits)
next
  case False
  obtain d cs where d: "d < 10" and ds: "digits (nat i) = digit_char d # cs"
    using digits_first by blast
  have "parse_digits (digit_char d # cs) 0 = Some (nat i)"
    using parse_digits_digits [of "nat i"] ds by simp
  with False assms d ds show ?thesis
    by (simp add: to_string_int_def parse_unsigned_def digit_char_not_sign)
qed

lemma std_int_converts_back: "int_in_range i \<Longrightarrow> converts_back std_int_ops i"
  by (simp add: converts_back_def std_int_ops_def lexical_cast_int_to_string_int)

lemma to_string_int_bool: "to_string_int 1 = ''1''" "to_string_int 0 = ''0''"
  by code_simp+

lemma std_bool_converts_back: "converts_back std_bool_ops b"
  by (cases b)
    (simp_all add: converts_back_def std_bool_ops_def lexical_cast_bool_def to_string_int_bool)

lemma steady_T_std_int:
  "mChangedInCode p \<longrightarrow> int_in_range (mValue p) \<Longrightarrow> steady_T std_int_ops p c"
  by (cases c) (auto simp: steady_T_def std_int_converts_back split: option.splits,
      auto simp: std_int_ops_def)

lemma steady_T_std_bool: "steady_T std_bool_ops p c"
  by (cases c) (auto simp: steady_T_def std_bool_converts_back split: option.splits,
      auto simp: std_bool_ops_def)

lemma steady_integral_library:
  "steady integral_library (Parameter_bool pb) var"
  "mChangedInCode p \<longrightarrow> int_in_range (mValue p)
     \<Longrightarrow> steady integral_library (Parameter_int p) var"
  by (simp_all add: integral_library_def steady_T_std_bool steady_T_std_int split: option.splits)

section \<open>The examples\<close>

lemma updateParameters_twice_example:
  "unshared world_changed
   \<and> steady_world integral_library world_changed
   \<and> updateParameters integral_library world_changed
       = Inr (state_of (updateParameters integral_library world_changed))
   \<and> bindings (state_of (updateParameters integral_library world_changed))
       = [(''count'', Addr 1, Var_std_string ''42''), (''threshold'', Addr 0, Var_int 7)]
   \<and> trace (state_of (updateParameters integral_library world_changed))
       = trace world_changed
         @ [DLOG_INFO ''Parameter value of count is: '', OnUpdate 2,
            DLOG_INFO ''Parameter value of threshold is: '', OnUpdate 1]
   \<and> updateParameters integral_library (state_of (updateParameters integral_library world_changed))
       = Inr (state_of (updateParameters integral_library world_changed))"
proof -
  have h1: "unshared world_changed" by code_simp
  have h2: "steady_world integral_library world_changed" by code_simp
  have h3: "updateParameters integral_library world_changed
       = Inr (state_of (updateParameters integral_library world_changed))" by code_simp
  have h4: "bindings (state_of (updateParameters integral_library world_changed))
       = [(''count'', Addr 1, Var_std_string ''42''), (''threshold'', Addr 0, Var_int 7)]"
    by code_simp
  have h5: "trace (state_of (updateParameters integral_library world_changed))
       = trace world_changed
         @ [DLOG_INFO ''Parameter value of count is: '', OnUpdate 2,
            DLOG_INFO ''Parameter value of threshold is: '', OnUpdate 1]"
    by code_simp
  from updateParameters_twice [OF h1 h2, THEN conjunct1] h3
  have "updateParameters integral_library (state_of (updateParameters integral_library world_changed))
       = Inr (state_of (updateParameters integral_library world_changed))"
    by blast
  with h1 h2 h3 h4 h5 show ?thesis by blast
qed

text \<open>
  C2 as stated fails: with \<^verbatim>\<open>abc\<close> entered for the \<^verbatim>\<open>TEXTINPUT\<close> parameter \<^verbatim>\<open>count\<close>, the
  pass throws \<^verbatim>\<open>bad_lexical_cast\<close> at the first binding and leaves the state as it
  found it, so that the value 7 that the program has set for \<^verbatim>\<open>threshold\<close> does
  not reach its control, which the pass has not come to.
\<close>

theorem updateParameters_malformed_text_counterexample:
  "getCategory count_text = TEXTINPUT
   \<and> bindings world_mistyped
       = [(''count'', Addr 1, Var_std_string ''abc''), (''threshold'', Addr 0, Var_int 5)]
   \<and> heap world_mistyped
       = [Some (Parameter_int (fst (setValue 7 (Parameter_MINMAX ''threshold'' 5 0 10 TRACKING 1)))),
          Some count_text]
   \<and> updateParameters integral_library world_mistyped = Inl (bad_lexical_cast, world_mistyped)"
  by code_simp

theorem updateParameters_malformed_text_witness:
  "unshared world_mistyped
   \<and> (''count'', Addr 1, Var_std_string ''abc'') \<in> set (bindings world_mistyped)
   \<and> deref (heap world_mistyped) (Addr 1) = Inr count_text
   \<and> getCategory count_text = TEXTINPUT
   \<and> \<not> converts integral_library count_text ''abc''
   \<and> (\<exists>e w'. updateParameters integral_library world_mistyped = Inl (e, w')
          \<and> deref (heap w') (Addr 1) = Inr count_text
          \<and> (''count'', Addr 1, Var_std_string ''abc'') \<in> set (bindings w'))"
proof -
  have h1: "unshared world_mistyped" by code_simp
  have h2: "(''count'', Addr 1, Var_std_string ''abc'') \<in> set (bindings world_mistyped)"
    by code_simp
  have h3: "deref (heap world_mistyped) (Addr 1) = Inr count_text" by code_simp
  have h4: "getCategory count_text = TEXTINPUT" by code_simp
  have h5: "\<not> converts integral_library count_text ''abc''" by code_simp
  from updateParameters_malformed_text [OF h1 h2 h3 h4 h5, THEN conjunct1] h1 h2 h3 h4 h5
  show ?thesis by blast
qed

text \<open>
  C3 fails in the code. The destructor writes \<^verbatim>\<open>nullptr\<close> into \<^verbatim>\<open>parametersDict\<close>; the
  binding in \<^verbatim>\<open>pangolinParams\<close> keeps its own copy of the pointer, and
  \<^verbatim>\<open>updateParameters\<close> calls \<^verbatim>\<open>param->getVariant()\<close> through it without a test. After the
  destructor of the bound parameter \<^verbatim>\<open>threshold\<close> the registry slot is null, the
  binding still holds the address, and the next pass follows it to the destroyed
  object.
\<close>

theorem updateParameters_after_destroy:
  "destroy 0 world_panel = Inr world_destroyed
   \<and> getParameter TRACKING ''threshold'' world_destroyed = (nullptr, world_destroyed)
   \<and> bindings world_destroyed
       = [(''count'', Addr 1, Var_std_string ''9''), (''threshold'', Addr 0, Var_int 5)]
   \<and> updateParameters integral_library world_destroyed = Inl (use_after_free, world_destroyed)"
  by code_simp

theorem destroyed_lookup_witness:
  "deref (heap world_declared) (Addr 0) = Inr threshold_first
   \<and> (\<exists>w'. destroy 0 world_declared = Inr w'
          \<and> getParameter (getGroup threshold_first) (getName threshold_first) w' = (nullptr, w'))"
proof -
  have h: "deref (heap world_declared) (Addr 0) = Inr threshold_first" by code_simp
  from destroyed_lookup [OF h, THEN conjunct1] h show ?thesis by blast
qed

text \<open>
  C9 as stated fails: \<^verbatim>\<open>b\<close> is declared before \<^verbatim>\<open>a\<close>, and the loop of
  \<^verbatim>\<open>createPangolinEntries\<close> visits \<^verbatim>\<open>a\<close> first and creates its control first.
\<close>

theorem insertion_order_counterexample:
  "visiting_order MAIN (construct_all [declared_b, declared_a] initial_world) = [''a'', ''b'']
   \<and> trace (state_of (createPangolinEntries integral_library ''ui'' MAIN
               (construct_all [declared_b, declared_a] initial_world)))
       = [NewVar ''ui.a'', NewVar ''ui.b'']"
  by code_simp

end
